theory Spec2Isabelle
  imports Main "HOL-Library.Word" "HOL-Library.Sublist"
begin

unbundle bit_operations_syntax

section \<open>Word arithmetic primitives (bn\_internal.h)\<close>

text \<open>
  Modelled from the spec: the word type \<open>BN_ULONG\<close> and the macros \<open>BN_BITS2\<close>,
  \<open>BN_BITS4\<close> and \<open>BN_MASK2l\<close> come from \<open>bn.h\<close>, which is missing. The specification
  speaks of fixed-width unsigned machine words (32 or 64 bits) and of half-word
  multiplies: the width is the type parameter \<open>'a\<close>, \<open>BN_BITS2 = LENGTH('a)\<close>, \<open>BN_BITS4\<close>
  is half of it and \<open>BN_MASK2l\<close> masks the low half. \<open>BN_ULLONG\<close>, where it exists
  (\<open>BN_LLONG\<close>), has twice the bits of \<open>BN_ULONG\<close>; its values are natural numbers taken
  modulo \<open>2 ^ (2 * BN_BITS2)\<close>. Output parameters are returned as a pair, in the order of
  the parameter list.
\<close>

definition BN_BITS2 :: "'a::len word \<Rightarrow> nat" where
  "BN_BITS2 w = LENGTH('a)"

definition BN_BITS4 :: "'a::len word \<Rightarrow> nat" where
  "BN_BITS4 w = LENGTH('a) div 2"

definition BN_MASK2l :: "'a::len word" where
  "BN_MASK2l = mask (LENGTH('a) div 2)"

text \<open>\<open>bn_addw\<close>, the \<open>BN_LLONG\<close> variant: the sum is formed in a \<open>BN_ULLONG\<close>.\<close>

definition bn_addw_llong :: "'a::len word \<Rightarrow> 'a word \<Rightarrow> 'a word \<times> 'a word" where
  "bn_addw_llong a b =
     (let r = (unat a + unat b) mod 2 ^ (2 * LENGTH('a))
      in (word_of_nat (r div 2 ^ LENGTH('a)), word_of_nat (r mod 2 ^ LENGTH('a))))"

text \<open>\<open>bn_addw\<close> without \<open>BN_LLONG\<close>: the carry is read off the top bit.\<close>

definition bn_addw :: "'a::len word \<Rightarrow> 'a word \<Rightarrow> 'a word \<times> 'a word" where
  "bn_addw a b =
     (let c1 = a OR b;
          c2 = a AND b;
          r0 = a + b;
          r1 = drop_bit (BN_BITS2 a - 1) ((c1 AND NOT r0) OR c2)
      in (r1, r0))"

text \<open>
  The functions built on \<open>bn_addw\<close> and \<open>bn_umul_hilo\<close> are given with the variants
  without \<open>BN_LLONG\<close>; the two variants of each are the same function (lemmas
  \<open>bn_addw_llong_eq\<close> and \<open>bn_umul_hilo_llong_eq\<close> below).
\<close>

definition bn_addw_addw :: "'a::len word \<Rightarrow> 'a word \<Rightarrow> 'a word \<Rightarrow> 'a word \<times> 'a word" where
  "bn_addw_addw a b c =
     (let (r1, r0) = bn_addw a b;
          (carry, r0) = bn_addw r0 c;
          r1 = r1 + carry
      in (r1, r0))"

definition bn_subw :: "'a::len word \<Rightarrow> 'a word \<Rightarrow> 'a word \<times> 'a word" where
  "bn_subw a b =
     (let r0 = a - b;
          borrow = drop_bit (BN_BITS2 a - 1) ((r0 OR (b AND NOT a)) AND (b OR NOT a))
      in (borrow, r0))"

definition bn_subw_subw :: "'a::len word \<Rightarrow> 'a word \<Rightarrow> 'a word \<Rightarrow> 'a word \<times> 'a word" where
  "bn_subw_subw a b c =
     (let (b1, r0) = bn_subw a b;
          (b2, r0) = bn_subw r0 c
      in (b1 + b2, r0))"

text \<open>\<open>bn_umul_hilo\<close>, the \<open>BN_LLONG\<close> variant: one double-width multiplication.\<close>

definition bn_umul_hilo_llong :: "'a::len word \<Rightarrow> 'a word \<Rightarrow> 'a word \<times> 'a word" where
  "bn_umul_hilo_llong a b =
     (let r = (unat a * unat b) mod 2 ^ (2 * LENGTH('a))
      in (word_of_nat (r div 2 ^ LENGTH('a)), word_of_nat (r mod 2 ^ LENGTH('a))))"

text \<open>\<open>bn_umul_hilo\<close> without \<open>BN_LLONG\<close>: four half-word products, summed with carries.\<close>

definition bn_umul_hilo :: "'a::len word \<Rightarrow> 'a word \<Rightarrow> 'a word \<times> 'a word" where
  "bn_umul_hilo a b =
     (let ah = drop_bit (BN_BITS4 a) a;
          al = a AND BN_MASK2l;
          bh = drop_bit (BN_BITS4 a) b;
          bl = b AND BN_MASK2l;
          h = ah * bh;
          l = al * bl;
          x = ah * bl;
          h = h + drop_bit (BN_BITS4 a) x;
          x = push_bit (BN_BITS4 a) x;
          c1 = l OR x;
          c2 = l AND x;
          l = l + x;
          h = h + drop_bit (BN_BITS2 a - 1) ((c1 AND NOT l) OR c2);
          x = bh * al;
          h = h + drop_bit (BN_BITS4 a) x;
          x = push_bit (BN_BITS4 a) x;
          c1 = l OR x;
          c2 = l AND x;
          l = l + x;
          h = h + drop_bit (BN_BITS2 a - 1) ((c1 AND NOT l) OR c2)
      in (h, l))"

definition bn_mulw_addw :: "'a::len word \<Rightarrow> 'a word \<Rightarrow> 'a word \<Rightarrow> 'a word \<times> 'a word" where
  "bn_mulw_addw a b c =
     (let (r1, r0) = bn_umul_hilo a b;
          (carry, r0) = bn_addw r0 c;
          r1 = r1 + carry
      in (r1, r0))"

definition bn_mulw_addw_addw ::
  "'a::len word \<Rightarrow> 'a word \<Rightarrow> 'a word \<Rightarrow> 'a word \<Rightarrow> 'a word \<times> 'a word" where
  "bn_mulw_addw_addw a b c d =
     (let (r1, r0) = bn_mulw_addw a b c;
          (carry, r0) = bn_addw r0 d;
          r1 = r1 + carry
      in (r1, r0))"


section \<open>Name constraints (x509\_constraints.c)\<close>

subsection \<open>Bytes, C strings and the libc functions the file calls\<close>

text \<open>
  A byte (\<open>uint8_t\<close> or \<open>char\<close>) is a \<^typ>\<open>char\<close>; a pointer to bytes is the list of the
  bytes from the pointer up to the NUL that terminates the buffer (the NUL itself is not in
  the list, a read at the position just after the list yields it). A C string is what
  \<open>strlen\<close> sees of such a buffer: the bytes before the first NUL.
\<close>

type_synonym uint8_t = char

definition NUL :: char where
  "NUL = CHR 0x00"

definition byte_at :: "string \<Rightarrow> nat \<Rightarrow> char" where
  "byte_at s i = (if i < length s then s ! i else NUL)"

definition bytes :: "string \<Rightarrow> nat \<Rightarrow> string" where
  "bytes s len = map (byte_at s) [0..<len]"

definition cstr :: "string \<Rightarrow> string" where
  "cstr s = takeWhile (\<lambda>c. c \<noteq> NUL) s"

definition strlen :: "string \<Rightarrow> nat" where
  "strlen s = length (cstr s)"

definition strdup :: "string \<Rightarrow> string" where
  "strdup s = cstr s"

definition strndup :: "string \<Rightarrow> nat \<Rightarrow> string" where
  "strndup s n = cstr (take n s)"

definition isascii :: "char \<Rightarrow> bool" where
  "isascii c \<longleftrightarrow> (of_char c :: nat) < 128"

definition isalnum :: "char \<Rightarrow> bool" where
  "isalnum c \<longleftrightarrow>
     (let n = (of_char c :: nat)
      in (48 \<le> n \<and> n \<le> 57) \<or> (65 \<le> n \<and> n \<le> 90) \<or> (97 \<le> n \<and> n \<le> 122))"

definition tolower :: "char \<Rightarrow> char" where
  "tolower c =
     (let n = (of_char c :: nat) in if 65 \<le> n \<and> n \<le> 90 then char_of (n + 32) else c)"

text \<open>\<open>strcmp\<close> and \<open>strncasecmp\<close> of libc; only the sign of the result is used.\<close>

fun strcmp :: "string \<Rightarrow> string \<Rightarrow> int" where
  "strcmp [] s2 = 0 - int (of_char (byte_at s2 0))"
| "strcmp (c1 # s1) s2 =
     (let c2 = byte_at s2 0
      in if c1 \<noteq> c2 then int (of_char c1) - int (of_char c2)
         else if c1 = NUL then 0
         else strcmp s1 (tl s2))"

fun strncasecmp :: "string \<Rightarrow> string \<Rightarrow> nat \<Rightarrow> int" where
  "strncasecmp s1 s2 0 = 0"
| "strncasecmp s1 s2 (Suc n) =
     (let c1 = byte_at s1 0; c2 = byte_at s2 0
      in if tolower c1 \<noteq> tolower c2
         then int (of_char (tolower c1)) - int (of_char (tolower c2))
         else if c1 = NUL then 0
         else strncasecmp (tl s1) (tl s2) n)"

text \<open>
  \<open>inet_pton\<close> belongs to libc, not to this repository. It is modelled after the BSD
  implementation: \<open>inet_pton4\<close> accepts four dot-separated decimal numbers up to 255,
  \<open>inet_pton6\<close> the colon-separated hexadecimal groups of an IPv6 address with at most one
  \<open>::\<close> and an optional dotted-quad tail. The result is whether the call returns 1.
\<close>

definition isdigit :: "char \<Rightarrow> bool" where
  "isdigit c \<longleftrightarrow> (let n = (of_char c :: nat) in 48 \<le> n \<and> n \<le> 57)"

definition isxdigit :: "char \<Rightarrow> bool" where
  "isxdigit c \<longleftrightarrow>
     (let n = (of_char c :: nat)
      in (48 \<le> n \<and> n \<le> 57) \<or> (65 \<le> n \<and> n \<le> 70) \<or> (97 \<le> n \<and> n \<le> 102))"

definition xdigit_val :: "char \<Rightarrow> int" where
  "xdigit_val c =
     (let n = (of_char c :: int)
      in if n \<le> 57 then n - 48 else if n \<le> 70 then n - 55 else n - 87)"

fun inet_pton4_loop :: "bool \<Rightarrow> nat \<Rightarrow> int \<Rightarrow> string \<Rightarrow> bool" where
  "inet_pton4_loop saw_digit octets v [] = (\<not> octets < 4)"
| "inet_pton4_loop saw_digit octets v (ch # src) =
     (if isdigit ch then
        (let new = v * 10 + (of_char ch - 48)
         in if new > 255 then False
            else if \<not> saw_digit then
              (if octets + 1 > 4 then False else inet_pton4_loop True (octets + 1) new src)
            else inet_pton4_loop True octets new src)
      else if ch = CHR ''.'' \<and> saw_digit then
        (if octets = 4 then False else inet_pton4_loop False octets 0 src)
      else False)"

definition inet_pton4 :: "string \<Rightarrow> bool" where
  "inet_pton4 src = inet_pton4_loop False 0 0 (cstr src)"

text \<open>
  The state of the IPv6 loop: \<open>tp\<close> counts the bytes written so far (of 16), \<open>colon\<close>
  tells whether a \<open>::\<close> was met, \<open>curtok\<close> is the text from the start of the current group.
\<close>

fun inet_pton6_loop ::
  "nat \<Rightarrow> bool \<Rightarrow> bool \<Rightarrow> nat \<Rightarrow> int \<Rightarrow> string \<Rightarrow> string \<Rightarrow> bool" where
  "inet_pton6_loop tp colon saw_xdigit count_xdigit val curtok [] =
     (let tp_ok = (if saw_xdigit then tp + 2 \<le> 16 else True);
          tp = (if saw_xdigit then tp + 2 else tp)
      in tp_ok \<and> (if colon then tp \<noteq> 16 else tp = 16))"
| "inet_pton6_loop tp colon saw_xdigit count_xdigit val curtok (ch # src) =
     (if isxdigit ch then
        (if count_xdigit \<ge> 4 then False
         else let val = val * 16 + xdigit_val ch
              in if val > 65535 then False
                 else inet_pton6_loop tp colon True (count_xdigit + 1) val curtok src)
      else if ch = CHR '':'' then
        (if \<not> saw_xdigit then
           (if colon then False else inet_pton6_loop tp True saw_xdigit count_xdigit val src src)
         else if src = [] then False
         else if tp + 2 > 16 then False
         else inet_pton6_loop (tp + 2) colon False 0 0 src src)
      else if ch = CHR ''.'' \<and> tp + 4 \<le> 16 \<and> inet_pton4 curtok then
        (let tp = tp + 4 in if colon then tp \<noteq> 16 else tp = 16)
      else False)"

definition inet_pton6 :: "string \<Rightarrow> bool" where
  "inet_pton6 src =
     (let s = cstr src
      in case s of
           [] \<Rightarrow> inet_pton6_loop 0 False False 0 0 s s
         | c # rest \<Rightarrow>
             if c = CHR '':'' then
               (if byte_at rest 0 \<noteq> CHR '':'' then False
                else inet_pton6_loop 0 False False 0 0 rest rest)
             else inet_pton6_loop 0 False False 0 0 s s)"

definition AF_INET :: int where
  "AF_INET = 2"

definition AF_INET6 :: int where
  "AF_INET6 = 24"

definition inet_pton :: "int \<Rightarrow> string \<Rightarrow> bool" where
  "inet_pton af src =
     (if af = AF_INET then inet_pton4 src else if af = AF_INET6 then inet_pton6 src else False)"

subsection \<open>Name validators\<close>

definition LOCAL_PART_MAX_LEN :: nat where
  "LOCAL_PART_MAX_LEN = 64"

definition DOMAIN_PART_MAX_LEN :: nat where
  "DOMAIN_PART_MAX_LEN = 255"

text \<open>
  The loop of \<open>x509_constraints_valid_domain_internal\<close> over the bytes still to read:
  \<open>prev\<close> is the byte read before, \<open>first\<close> is \<open>i == 0\<close>, and \<open>i == len - 1\<close> holds
  when no byte follows.
\<close>

fun valid_domain_loop :: "char \<Rightarrow> nat \<Rightarrow> bool \<Rightarrow> string \<Rightarrow> bool" where
  "valid_domain_loop prev component first [] = True"
| "valid_domain_loop prev component first (c # rest) =
     (if \<not> isascii c \<or> c = NUL then False
      else if \<not> isalnum c \<and> c \<noteq> CHR ''-'' \<and> c \<noteq> CHR ''.'' \<and> c \<noteq> CHR ''_''
              \<and> c \<noteq> CHR ''*'' then False
      else if c = CHR ''*'' \<and> \<not> first then False
      else if c = CHR ''-'' \<and> (component = 0 \<or> rest = []) then False
      else if c = CHR ''.'' \<and> ((component = 0 \<and> \<not> first) \<or> rest = []) then False
      else if c = CHR ''.'' then
        (if prev = CHR ''-'' then False else valid_domain_loop c 0 False rest)
      else if component + 1 > 63 then False
      else valid_domain_loop c (component + 1) False rest)"

definition x509_constraints_valid_domain_internal :: "string \<Rightarrow> nat \<Rightarrow> bool" where
  "x509_constraints_valid_domain_internal name len =
     (if len > DOMAIN_PART_MAX_LEN then False
      else valid_domain_loop NUL 0 True (bytes name len))"

definition x509_constraints_valid_domain :: "string \<Rightarrow> nat \<Rightarrow> bool" where
  "x509_constraints_valid_domain name len =
     (if len = 0 then False
      else if byte_at name 0 = CHR ''*'' then False
      else if len < 3 \<and> byte_at name 0 = CHR ''.'' then False
      else x509_constraints_valid_domain_internal name len)"

definition x509_constraints_valid_host :: "string \<Rightarrow> nat \<Rightarrow> bool" where
  "x509_constraints_valid_host name len =
     (if len = 0 then False
      else if byte_at name 0 = CHR ''*'' then False
      else if byte_at name 0 = CHR ''.'' then False
      else if inet_pton AF_INET name then False
      else if inet_pton AF_INET6 name then False
      else x509_constraints_valid_domain_internal name len)"

definition x509_constraints_valid_sandns :: "string \<Rightarrow> nat \<Rightarrow> bool" where
  "x509_constraints_valid_sandns name len =
     (if len = 0 then False
      else if byte_at name 0 = CHR ''.'' then False
      else if len < 4 \<and> byte_at name 0 = CHR ''*'' then False
      else if len \<ge> 4 \<and> byte_at name 0 = CHR ''*'' \<and> byte_at name 1 \<noteq> CHR ''.'' then False
      else x509_constraints_valid_domain_internal name len)"

definition x509_constraints_valid_domain_constraint :: "string \<Rightarrow> nat \<Rightarrow> bool" where
  "x509_constraints_valid_domain_constraint constraint len =
     (if len = 0 then True
      else if byte_at constraint 0 = CHR ''*'' then False
      else if len < 3 \<and> byte_at constraint 0 = CHR ''.'' then False
      else x509_constraints_valid_domain_internal constraint len)"

definition local_part_ok :: "char \<Rightarrow> bool" where
  "local_part_ok c \<longleftrightarrow>
     (let n = (of_char c :: nat)
      in (48 \<le> n \<and> n \<le> 57) \<or> (97 \<le> n \<and> n \<le> 122) \<or> (65 \<le> n \<and> n \<le> 90)
         \<or> c = CHR ''!'' \<or> c = CHR ''#'' \<or> c = CHR ''$'' \<or> c = CHR ''%'' \<or> c = CHR ''&''
         \<or> c = CHR 0x27 \<or> c = CHR ''*'' \<or> c = CHR ''+'' \<or> c = CHR ''-'' \<or> c = CHR ''/''
         \<or> c = CHR ''='' \<or> c = CHR ''?'' \<or> c = CHR ''^'' \<or> c = CHR ''_'' \<or> c = CHR 0x60
         \<or> c = CHR ''{'' \<or> c = CHR ''|'' \<or> c = CHR ''}'' \<or> c = CHR ''~'' \<or> c = CHR ''.'')"


subsection \<open>Names and constraints\<close>

text \<open>
  Modelled from the spec: the kinds of name (DNS, email, URI, IP address, directory
  name), the two subject attributes read (common name, email address) and the error
  kinds. The headers that number them (\<open>x509v3.h\<close>, \<open>objects.h\<close>, \<open>x509_vfy.h\<close>) are
  missing; the tags carry the values of the public interface, and only their being
  distinct (and the name tags being non-zero) matters below.
\<close>

definition GEN_OTHERNAME :: int where "GEN_OTHERNAME = 0"
definition GEN_EMAIL :: int where "GEN_EMAIL = 1"
definition GEN_DNS :: int where "GEN_DNS = 2"
definition GEN_X400 :: int where "GEN_X400 = 3"
definition GEN_DIRNAME :: int where "GEN_DIRNAME = 4"
definition GEN_EDIPARTY :: int where "GEN_EDIPARTY = 5"
definition GEN_URI :: int where "GEN_URI = 6"
definition GEN_IPADD :: int where "GEN_IPADD = 7"
definition GEN_RID :: int where "GEN_RID = 8"

definition NID_commonName :: int where "NID_commonName = 13"
definition NID_pkcs9_emailAddress :: int where "NID_pkcs9_emailAddress = 48"

datatype verify_error =
    X509_V_ERR_UNSPECIFIED
  | X509_V_ERR_OUT_OF_MEM
  | X509_V_ERR_UNSUPPORTED_NAME_SYNTAX
  | X509_V_ERR_UNSUPPORTED_CONSTRAINT_SYNTAX
  | X509_V_ERR_SUBTREE_MINMAX
  | X509_V_ERR_EXCLUDED_VIOLATION
  | X509_V_ERR_PERMITTED_VIOLATION

text \<open>
  Modelled from the spec: \<open>struct x509_constraints_name\<close>, the normalized name of the
  data model, is declared in \<open>x509_internal.h\<close>, which is missing; its fields are those
  the functions below read and write. The pointers \<open>name\<close> and \<open>local\<close> are \<open>None\<close> when
  NULL; \<open>der\<close> holds the \<open>der_len\<close> bytes (none when NULL); \<open>address\<close> is the array of 32
  bytes. A failing allocation is not modelled: \<open>calloc\<close>, \<open>malloc\<close>, \<open>strdup\<close> and
  \<open>recallocarray\<close> succeed.
\<close>

record x509_constraints_name =
  type :: int
  name :: "string option"
  local :: "string option"
  der :: "uint8_t list"
  af :: int
  address :: "uint8_t list"

text \<open>\<open>x509_constraints_name_new\<close>: a zeroed record.\<close>

definition x509_constraints_name_new :: x509_constraints_name where
  "x509_constraints_name_new =
     \<lparr>type = 0, name = None, local = None, der = [], af = 0, address = replicate 32 NUL\<rparr>"

text \<open>
  Modelled from the spec: \<open>struct x509_constraints_names\<close> (same missing header) is the
  ordered, growable collection of names: the \<open>names_count\<close> entries in order.
\<close>

type_synonym x509_constraints_names = "x509_constraints_name list"

definition x509_constraints_names_add ::
  "x509_constraints_names \<Rightarrow> x509_constraints_name \<Rightarrow> x509_constraints_names" where
  "x509_constraints_names_add names vname = names @ [vname]"

text \<open>\<open>memcpy\<close> of \<open>len\<close> bytes to the start of the address array.\<close>

definition set_address :: "uint8_t list \<Rightarrow> uint8_t list \<Rightarrow> nat \<Rightarrow> uint8_t list" where
  "set_address addr src len = bytes src len @ drop len addr"

subsection \<open>Mailbox parser\<close>

text \<open>
  The loop of \<open>x509_constraints_parse_mailbox\<close> over the bytes still to read. \<open>first\<close> is
  \<open>i == 0\<close>; \<open>working\<close> holds the \<open>wi\<close> bytes written since the buffer was last cleared;
  \<open>i + 1 == len\<close> holds when no byte follows, and \<open>candidate[i + 1]\<close> is the head of the
  rest. \<open>None\<close> is \<open>goto bad\<close>; otherwise the loop ends (by \<open>break\<close> or at \<open>len\<close>) with
  the local and domain parts found so far. A domain part of 256 bytes fills \<open>working\<close>
  to its last byte, so that \<open>strdup\<close> would read past it; the copy is taken to be the 256
  bytes, which the length check of the host validation rejects whatever follows them.
\<close>

fun parse_mailbox_loop ::
  "bool \<Rightarrow> string \<Rightarrow> bool \<Rightarrow> bool \<Rightarrow> string option \<Rightarrow> string option \<Rightarrow> string
     \<Rightarrow> (string option \<times> string option) option" where
  "parse_mailbox_loop first working accept quoted candidate_local candidate_domain [] =
     Some (candidate_local, candidate_domain)"
| "parse_mailbox_loop first working accept quoted candidate_local candidate_domain (c # rest) =
     (if \<not> isascii c \<or> c = CHR 0x0D \<or> c = CHR 0x0A \<or> c = NUL then None
      else
        let quoted = (if first \<and> c = CHR 0x22 then True else quoted)
        in if first \<and> c = CHR ''.'' then None
           else if length working > DOMAIN_PART_MAX_LEN then None
           else if accept then
             parse_mailbox_loop False (working @ [c]) False quoted
               candidate_local candidate_domain rest
           else if candidate_local \<noteq> None then
             (if length working > DOMAIN_PART_MAX_LEN then None
              else
                let working = working @ [c]
                in if rest = [] then
                     (if length working = 0 then None
                      else if candidate_domain \<noteq> None then None
                      else parse_mailbox_loop False working False quoted
                             candidate_local (Some (strdup working)) rest)
                   else parse_mailbox_loop False working False quoted
                          candidate_local candidate_domain rest)
           else if length working > LOCAL_PART_MAX_LEN then
             Some (candidate_local, candidate_domain)
           else if quoted then
             (if c = CHR 0x5C then
                parse_mailbox_loop False working True quoted candidate_local candidate_domain rest
              else if c = CHR 0x22 \<and> \<not> first \<and> (rest = [] \<or> hd rest \<noteq> CHR ''@'') then None
              else
                let quoted = (if c = CHR 0x22 \<and> \<not> first then False else quoted)
                in if c = CHR 0x09 then None
                   else parse_mailbox_loop False (working @ [c]) False quoted
                          candidate_local candidate_domain rest)
           else if c = CHR ''@'' then
             (if length working = 0 then None
              else if candidate_local \<noteq> None then None
              else parse_mailbox_loop False [] False quoted
                     (Some (strdup working)) candidate_domain rest)
           else if c = CHR 0x5C \<and> (rest = [] \<or> \<not> local_part_ok (hd rest)) then None
           else
             let accept = (c = CHR 0x5C)
             in if \<not> local_part_ok c then None
                else parse_mailbox_loop False (working @ [c]) accept quoted
                       candidate_local candidate_domain rest)"

text \<open>
  The result is the return value and the target record as the call leaves it.
\<close>

definition x509_constraints_parse_mailbox ::
  "string option \<Rightarrow> nat \<Rightarrow> x509_constraints_name \<Rightarrow> int \<times> x509_constraints_name" where
  "x509_constraints_parse_mailbox candidate len vname =
     (case candidate of
        None \<Rightarrow> (0, vname)
      | Some cand \<Rightarrow>
          if len > LOCAL_PART_MAX_LEN + DOMAIN_PART_MAX_LEN + 1 then (0, vname)
          else
            (case parse_mailbox_loop True [] False False None None (bytes cand len) of
               None \<Rightarrow> (0, vname)
             | Some (candidate_local, candidate_domain) \<Rightarrow>
                 (case (candidate_local, candidate_domain) of
                    (Some l, Some d) \<Rightarrow>
                      if \<not> x509_constraints_valid_host d (strlen d) then (0, vname)
                      else (1, vname\<lparr>local := Some l, name := Some d, type := GEN_EMAIL\<rparr>)
                  | _ \<Rightarrow> (0, vname))))"

subsection \<open>URI host\<close>

text \<open>
  The first loop of \<open>x509_constraints_uri_host\<close>, from index \<open>i\<close> while \<open>i < len - 1\<close>: the
  offset of the authority, or \<open>None\<close> where the function returns 0 (a byte that is not
  ASCII, or no \<open>//\<close> so that \<open>authority\<close> stays NULL).
\<close>

fun uri_authority_loop :: "nat \<Rightarrow> string \<Rightarrow> nat option" where
  "uri_authority_loop i (c # d # rest) =
     (if \<not> isascii c then None
      else if c = CHR ''/'' \<and> d = CHR ''/'' then Some (i + 2)
      else uri_authority_loop (i + 1) (d # rest))"
| "uri_authority_loop i rest = None"

text \<open>
  The second loop, from index \<open>i\<close> to \<open>len\<close>: \<open>host\<close> is the offset after the \<open>@\<close> met, if
  any. \<open>None\<close> is \<open>return 0\<close>; otherwise \<open>host\<close> and \<open>hostlen\<close> at the end of the loop.
\<close>

fun uri_host_loop :: "nat \<Rightarrow> nat option \<Rightarrow> nat \<Rightarrow> string \<Rightarrow> (nat option \<times> nat) option" where
  "uri_host_loop i host hostlen [] = Some (host, hostlen)"
| "uri_host_loop i host hostlen (c # rest) =
     (if \<not> isascii c then None
      else if c = CHR ''@'' then
        (if host \<noteq> None then Some (host, 0)
         else uri_host_loop (i + 1) (Some (i + 1)) 0 rest)
      else if c = CHR '':'' \<or> c = CHR ''/'' \<or> c = CHR ''?'' \<or> c = CHR ''#'' then
        Some (host, hostlen)
      else uri_host_loop (i + 1) host (hostlen + 1) rest)"

text \<open>
  \<open>None\<close> is \<open>return 0\<close>, \<open>Some h\<close> is \<open>return 1\<close> with \<open>*hostpart = h\<close>. The host is
  validated through a pointer into \<open>uri\<close>, so \<open>inet_pton\<close> reads on to the end of the buffer.
\<close>

definition x509_constraints_uri_host :: "string \<Rightarrow> nat \<Rightarrow> string option" where
  "x509_constraints_uri_host uri len =
     (if len < 3 then None
      else
        (case uri_authority_loop 0 (bytes uri len) of
           None \<Rightarrow> None
         | Some authority \<Rightarrow>
             (case uri_host_loop authority None 0 (drop authority (bytes uri len)) of
                None \<Rightarrow> None
              | Some (host, hostlen) \<Rightarrow>
                  if hostlen = 0 then None
                  else
                    let host = (case host of None \<Rightarrow> authority | Some h \<Rightarrow> h)
                    in if \<not> x509_constraints_valid_host (drop host uri) hostlen then None
                       else Some (strndup (drop host uri) hostlen))))"

subsection \<open>Matching\<close>

definition x509_constraints_sandns :: "string \<Rightarrow> nat \<Rightarrow> string \<Rightarrow> nat \<Rightarrow> bool" where
  "x509_constraints_sandns sandns dlen constraint len =
     (if len = 0 then True
      else if dlen < len then False
      else strncasecmp (drop (dlen - len) sandns) constraint len = 0)"

definition x509_constraints_domain :: "string \<Rightarrow> nat \<Rightarrow> string \<Rightarrow> nat \<Rightarrow> bool" where
  "x509_constraints_domain domain dlen constraint len =
     (if len = 0 then True
      else if byte_at constraint 0 = CHR ''.'' then
        (if dlen < len then False
         else strncasecmp (drop (dlen - len) domain) constraint len = 0)
      else if byte_at domain 0 = CHR ''.'' then
        (if len < dlen then False
         else strncasecmp (drop (len - dlen) constraint) domain dlen = 0)
      else if dlen \<noteq> len then False
      else strncasecmp domain constraint len = 0)"

definition x509_constraints_ipaddr ::
  "uint8_t list \<Rightarrow> nat \<Rightarrow> uint8_t list \<Rightarrow> nat \<Rightarrow> bool" where
  "x509_constraints_ipaddr addr alen constraint len =
     (if alen * 2 \<noteq> len then False
      else
        (let mask = drop alen constraint
         in list_all
              (\<lambda>i. (of_char (byte_at addr i) AND of_char (byte_at mask i) :: nat)
                    = (of_char (byte_at constraint i) AND of_char (byte_at mask i)))
              [0..<alen]))"

definition x509_constraints_dirname ::
  "uint8_t list \<Rightarrow> nat \<Rightarrow> uint8_t list \<Rightarrow> nat \<Rightarrow> bool" where
  "x509_constraints_dirname dirname dlen constraint len =
     (if len \<noteq> dlen then False else take len constraint = take len dirname)"

text \<open>
  \<open>x509_constraints_match\<close>. \<open>None\<close> stands for a call that hands a NULL pointer to
  \<open>strlen\<close> or \<open>strcmp\<close>, which C leaves undefined; \<open>Some b\<close> is the return value as a truth
  value.
\<close>

definition x509_constraints_match ::
  "x509_constraints_name \<Rightarrow> x509_constraints_name \<Rightarrow> bool option" where
  "x509_constraints_match vname constraint =
     (if type vname \<noteq> type constraint then Some False
      else if type vname = GEN_DNS then
        (case (name vname, name constraint) of
           (Some n, Some c) \<Rightarrow> Some (x509_constraints_sandns n (strlen n) c (strlen c))
         | _ \<Rightarrow> None)
      else if type vname = GEN_URI then
        (case (name vname, name constraint) of
           (Some n, Some c) \<Rightarrow> Some (x509_constraints_domain n (strlen n) c (strlen c))
         | _ \<Rightarrow> None)
      else if type vname = GEN_IPADD then
        (let nlen = (if af vname = AF_INET then 4 else 16);
             clen = (if af vname = AF_INET then 8 else 32)
         in if af vname \<noteq> AF_INET \<and> af vname \<noteq> AF_INET6 then Some False
            else if af constraint \<noteq> AF_INET \<and> af constraint \<noteq> AF_INET6 then Some False
            else if af vname \<noteq> af constraint then Some False
            else Some (x509_constraints_ipaddr (address vname) nlen (address constraint) clen))
      else if type vname = GEN_EMAIL then
        (case local constraint of
           Some cl \<Rightarrow>
             (case (local vname, name vname, name constraint) of
                (Some nl, Some n, Some c) \<Rightarrow> Some (strcmp nl cl = 0 \<and> strcmp n c = 0)
              | _ \<Rightarrow> None)
         | None \<Rightarrow>
             (case (name vname, name constraint) of
                (Some n, Some c) \<Rightarrow> Some (x509_constraints_domain n (strlen n) c (strlen c))
              | _ \<Rightarrow> None))
      else if type vname = GEN_DIRNAME then
        Some (x509_constraints_dirname (der vname) (length (der vname))
                (der constraint) (length (der constraint)))
      else Some False)"

subsection \<open>Checking names against constraints\<close>

text \<open>
  The loop over the excluded entries for one name: whether one of them matched.
\<close>

fun excluded_loop :: "x509_constraints_name \<Rightarrow> x509_constraints_names \<Rightarrow> bool option" where
  "excluded_loop vname [] = Some False"
| "excluded_loop vname (e # es) =
     (case x509_constraints_match vname e of
        None \<Rightarrow> None
      | Some True \<Rightarrow> Some True
      | Some False \<Rightarrow> excluded_loop vname es)"

text \<open>
  The loop over the permitted entries for one name: \<open>permitted_seen\<close> and
  \<open>permitted_matched\<close> when it ends. The counters are C \<open>int\<close>s that count entries of a
  list the caller has bounded, so they do not overflow.
\<close>

fun permitted_loop ::
  "x509_constraints_name \<Rightarrow> x509_constraints_names \<Rightarrow> nat \<Rightarrow> nat \<Rightarrow> (nat \<times> nat) option" where
  "permitted_loop vname [] permitted_seen permitted_matched =
     Some (permitted_seen, permitted_matched)"
| "permitted_loop vname (p # ps) permitted_seen permitted_matched =
     (let permitted_seen = (if type p = type vname then permitted_seen + 1 else permitted_seen)
      in case x509_constraints_match vname p of
           None \<Rightarrow> None
         | Some True \<Rightarrow> Some (permitted_seen, permitted_matched + 1)
         | Some False \<Rightarrow> permitted_loop vname ps permitted_seen permitted_matched)"

text \<open>
  \<open>x509_constraints_check\<close>: \<open>Inr ()\<close> is \<open>return 1\<close>, \<open>Inl e\<close> is \<open>return 0\<close> with
  \<open>*error = e\<close>, \<open>None\<close> an undefined match as above.
\<close>

fun x509_constraints_check ::
  "x509_constraints_names \<Rightarrow> x509_constraints_names \<Rightarrow> x509_constraints_names
     \<Rightarrow> (verify_error + unit) option" where
  "x509_constraints_check [] permitted excluded = Some (Inr ())"
| "x509_constraints_check (vname # names) permitted excluded =
     (case excluded_loop vname excluded of
        None \<Rightarrow> None
      | Some True \<Rightarrow> Some (Inl X509_V_ERR_EXCLUDED_VIOLATION)
      | Some False \<Rightarrow>
          (case permitted_loop vname permitted 0 0 of
             None \<Rightarrow> None
           | Some (permitted_seen, permitted_matched) \<Rightarrow>
               if permitted_seen \<noteq> 0 \<and> permitted_matched = 0
               then Some (Inl X509_V_ERR_PERMITTED_VIOLATION)
               else x509_constraints_check names permitted excluded))"


subsection \<open>Certificates as the decoding layer presents them\<close>

text \<open>
  Modelled from the spec: the certificate types of \<open>x509.h\<close> and \<open>x509v3.h\<close> (missing) are
  what the decoding layer hands over: the alternative names with their kind and bytes,
  the subject with its attributes and canonical encoding, and the name constraints with
  their permitted and excluded subtrees and optional depth bounds.
  An ASN.1 string is its \<open>data\<close> bytes (\<open>length\<close> of them, a NUL after the last).
  Of an \<open>X509_NAME\<close> the file reads the entries (attribute identifier and value), whether
  the canonical encoding is at hand (\<open>!modified || i2d_X509_NAME(name, NULL) >= 0\<close>) and
  that encoding, \<open>canon_enc\<close> with \<open>canon_enclen\<close> bytes (\<open>None\<close> when the pointer is NULL).
  A general name is one of the five kinds this file reads, or carries another tag.
\<close>

record X509_NAME =
  entries :: "(int \<times> string) list"
  encodes :: bool
  canon_enc :: "uint8_t list option"

datatype GENERAL_NAME =
    dNSName string
  | rfc822Name string
  | uniformResourceIdentifier string
  | directoryName X509_NAME
  | iPAddress "uint8_t list"
  | otherGeneralName int

record GENERAL_SUBTREE =
  base :: GENERAL_NAME
  minimum :: "int option"
  maximum :: "int option"

record NAME_CONSTRAINTS =
  permittedSubtrees :: "GENERAL_SUBTREE list"
  excludedSubtrees :: "GENERAL_SUBTREE list"

record X509 =
  altname :: "GENERAL_NAME list"
  subject :: X509_NAME
  nc :: "NAME_CONSTRAINTS option"

definition canon_enclen :: "X509_NAME \<Rightarrow> nat" where
  "canon_enclen dname = (case canon_enc dname of None \<Rightarrow> 0 | Some e \<Rightarrow> length e)"

text \<open>
  \<open>x509_constraints_general_to_bytes\<close>: the return value, \<open>*bytes\<close> and \<open>*len\<close>.
\<close>

fun x509_constraints_general_to_bytes :: "GENERAL_NAME \<Rightarrow> int \<times> string option \<times> nat" where
  "x509_constraints_general_to_bytes (dNSName data) = (GEN_DNS, Some data, strlen data)"
| "x509_constraints_general_to_bytes (rfc822Name data) = (GEN_EMAIL, Some data, strlen data)"
| "x509_constraints_general_to_bytes (uniformResourceIdentifier data) =
     (GEN_URI, Some data, strlen data)"
| "x509_constraints_general_to_bytes (directoryName dname) =
     (if encodes dname then (GEN_DIRNAME, canon_enc dname, canon_enclen dname)
      else (0, None, 0))"
| "x509_constraints_general_to_bytes (iPAddress ip) = (GEN_IPADD, Some ip, length ip)"
| "x509_constraints_general_to_bytes (otherGeneralName t) = (0, None, 0)"

subsection \<open>Name extraction\<close>

text \<open>
  In the functions below \<open>None\<close> is an undefined read through a NULL pointer, \<open>Some (Inl e)\<close>
  is \<open>return 0\<close> with \<open>*error = e\<close> and \<open>Some (Inr x)\<close> is \<open>return 1\<close> with the state \<open>x\<close>.

  The body of the \<open>switch\<close> in \<open>x509_constraints_extract_names\<close> for one alternative name:
  the name to add, or \<open>Inr None\<close> where the entry is ignored.
\<close>

definition altname_to_name ::
  "GENERAL_NAME \<Rightarrow> (verify_error + x509_constraints_name option) option" where
  "altname_to_name gname =
     (let vname = x509_constraints_name_new;
          (name_type, bytes_opt, len) = x509_constraints_general_to_bytes gname
      in if name_type = GEN_DNS then
           (case bytes_opt of
              None \<Rightarrow> None
            | Some b \<Rightarrow>
                if \<not> x509_constraints_valid_sandns b len
                then Some (Inl X509_V_ERR_UNSUPPORTED_NAME_SYNTAX)
                else Some (Inr (Some (vname\<lparr>name := Some (strdup b), type := GEN_DNS\<rparr>))))
         else if name_type = GEN_EMAIL then
           (case x509_constraints_parse_mailbox bytes_opt len vname of
              (ret, vname) \<Rightarrow>
                if ret = 0 then Some (Inl X509_V_ERR_UNSUPPORTED_NAME_SYNTAX)
                else Some (Inr (Some (vname\<lparr>type := GEN_EMAIL\<rparr>))))
         else if name_type = GEN_URI then
           (case bytes_opt of
              None \<Rightarrow> None
            | Some b \<Rightarrow>
                (case x509_constraints_uri_host b len of
                   None \<Rightarrow> Some (Inl X509_V_ERR_UNSUPPORTED_NAME_SYNTAX)
                 | Some h \<Rightarrow> Some (Inr (Some (vname\<lparr>name := Some h, type := GEN_URI\<rparr>)))))
         else if name_type = GEN_DIRNAME then
           (case bytes_opt of
              None \<Rightarrow> Some (Inl X509_V_ERR_OUT_OF_MEM)
            | Some b \<Rightarrow>
                if len = 0 then Some (Inl X509_V_ERR_UNSUPPORTED_NAME_SYNTAX)
                else Some (Inr (Some (vname\<lparr>der := bytes b len, type := GEN_DIRNAME\<rparr>))))
         else if name_type = GEN_IPADD then
           (case bytes_opt of
              None \<Rightarrow> None
            | Some b \<Rightarrow>
                let vname = (if len = 4 then vname\<lparr>af := AF_INET\<rparr> else vname);
                    vname = (if len = 16 then vname\<lparr>af := AF_INET6\<rparr> else vname)
                in if af vname \<noteq> AF_INET \<and> af vname \<noteq> AF_INET6
                   then Some (Inl X509_V_ERR_UNSUPPORTED_NAME_SYNTAX)
                   else Some (Inr (Some (vname\<lparr>address := set_address (address vname) b len,
                                                type := GEN_IPADD\<rparr>))))
         else Some (Inr None))"

text \<open>
  The loop over \<open>cert->altname\<close>: the names, \<open>include_cn\<close> and \<open>include_email\<close> at its end.
\<close>

fun altname_loop ::
  "GENERAL_NAME list \<Rightarrow> x509_constraints_names \<Rightarrow> bool \<Rightarrow> bool
     \<Rightarrow> (verify_error + x509_constraints_names \<times> bool \<times> bool) option" where
  "altname_loop [] names include_cn include_email = Some (Inr (names, include_cn, include_email))"
| "altname_loop (gname # rest) names include_cn include_email =
     (case altname_to_name gname of
        None \<Rightarrow> None
      | Some (Inl e) \<Rightarrow> Some (Inl e)
      | Some (Inr None) \<Rightarrow> altname_loop rest names include_cn include_email
      | Some (Inr (Some vname)) \<Rightarrow>
          altname_loop rest (x509_constraints_names_add names vname)
            (if type vname = GEN_DNS then False else include_cn)
            (if type vname = GEN_EMAIL then False else include_email))"

text \<open>
  Modelled from the spec: the accessors of the subject attributes,
  \<open>X509_NAME_get_index_by_NID\<close> and \<open>X509_NAME_get_entry\<close>, are missing. The first
  returns the index of the next entry with the given identifier after \<open>lastpos\<close> (from the
  start when \<open>lastpos\<close> is negative), or \<open>-1\<close>. A loop \<open>while ((i = X509_NAME_get_index_by_NID(name, nid, i)) >= 0)\<close> therefore
  visits, in order, the values of the entries with that identifier that lie after the
  initial \<open>i\<close>, and leaves \<open>i = -1\<close>.
\<close>

definition entries_after :: "X509_NAME \<Rightarrow> int \<Rightarrow> int \<Rightarrow> string list" where
  "entries_after dname nid lastpos =
     map snd (filter (\<lambda>e. fst e = nid)
       (drop (if lastpos < 0 then 0 else nat lastpos + 1) (entries dname)))"

fun subject_email_loop ::
  "string list \<Rightarrow> x509_constraints_names \<Rightarrow> verify_error + x509_constraints_names" where
  "subject_email_loop [] names = Inr names"
| "subject_email_loop (data # rest) names =
     (case x509_constraints_parse_mailbox (Some data) (length data) x509_constraints_name_new of
        (ret, vname) \<Rightarrow>
          if ret = 0 then Inl X509_V_ERR_UNSUPPORTED_NAME_SYNTAX
          else subject_email_loop rest
                 (x509_constraints_names_add names (vname\<lparr>type := GEN_EMAIL\<rparr>)))"

fun subject_cn_loop :: "string list \<Rightarrow> x509_constraints_names \<Rightarrow> x509_constraints_names" where
  "subject_cn_loop [] names = names"
| "subject_cn_loop (data # rest) names =
     (if \<not> x509_constraints_valid_host data (length data) then subject_cn_loop rest names
      else subject_cn_loop rest
             (x509_constraints_names_add names
                (x509_constraints_name_new
                   \<lparr>name := Some (strndup data (length data)), type := GEN_DNS\<rparr>)))"

text \<open>
  \<open>x509_constraints_extract_names\<close>. The index \<open>i\<close> left by the loop over the alternative
  names (one past their number, plus one) is the \<open>lastpos\<close> the subject loops start from.
\<close>

definition x509_constraints_extract_names ::
  "x509_constraints_names \<Rightarrow> X509 \<Rightarrow> bool \<Rightarrow> (verify_error + x509_constraints_names) option" where
  "x509_constraints_extract_names names cert is_leaf =
     (case altname_loop (altname cert) names is_leaf is_leaf of
        None \<Rightarrow> None
      | Some (Inl e) \<Rightarrow> Some (Inl e)
      | Some (Inr (names, include_cn, include_email)) \<Rightarrow>
          let i = int (length (altname cert)) + 1;
              subject_name = subject cert
          in if length (entries subject_name) > 0 then
               (if \<not> encodes subject_name then Some (Inl X509_V_ERR_OUT_OF_MEM)
                else
                  let vname = x509_constraints_name_new
                        \<lparr>der := (case canon_enc subject_name of None \<Rightarrow> [] | Some e \<Rightarrow> e),
                         type := GEN_DIRNAME\<rparr>;
                      names = x509_constraints_names_add names vname
                  in case (if include_email
                           then subject_email_loop
                                  (entries_after subject_name NID_pkcs9_emailAddress i) names
                           else Inr names) of
                       Inl e \<Rightarrow> Some (Inl e)
                     | Inr names \<Rightarrow>
                         let i = (if include_email then - 1 else i)
                         in Some (Inr (if include_cn
                                       then subject_cn_loop
                                              (entries_after subject_name NID_commonName i) names
                                       else names)))
             else Some (Inr names))"

subsection \<open>Constraint extraction\<close>

definition x509_constraints_validate ::
  "GENERAL_NAME \<Rightarrow> x509_constraints_name \<Rightarrow> (verify_error + x509_constraints_name) option" where
  "x509_constraints_validate constraint vname =
     (let (name_type, bytes_opt, len) = x509_constraints_general_to_bytes constraint;
          err = Some (Inl X509_V_ERR_UNSUPPORTED_CONSTRAINT_SYNTAX)
      in if name_type = GEN_DIRNAME then
           (case bytes_opt of
              None \<Rightarrow> Some (Inl X509_V_ERR_OUT_OF_MEM)
            | Some b \<Rightarrow>
                if len = 0 then err
                else Some (Inr (vname\<lparr>der := bytes b len, type := GEN_DIRNAME\<rparr>)))
         else if name_type = GEN_DNS then
           (case bytes_opt of
              None \<Rightarrow> None
            | Some b \<Rightarrow>
                if \<not> x509_constraints_valid_domain_constraint b len then err
                else Some (Inr (vname\<lparr>name := Some (strdup b), type := GEN_DNS\<rparr>)))
         else if name_type = GEN_EMAIL then
           (case bytes_opt of
              None \<Rightarrow> None
            | Some b \<Rightarrow>
                if CHR ''@'' \<in> set (bytes b len) then
                  (case x509_constraints_parse_mailbox (Some b) len vname of
                     (ret, vname) \<Rightarrow>
                       if ret = 0 then err else Some (Inr (vname\<lparr>type := GEN_EMAIL\<rparr>)))
                else if \<not> x509_constraints_valid_domain_constraint b len then err
                else Some (Inr (vname\<lparr>name := Some (strdup b), type := GEN_EMAIL\<rparr>)))
         else if name_type = GEN_IPADD then
           (case bytes_opt of
              None \<Rightarrow> None
            | Some b \<Rightarrow>
                if len = 8 then
                  Some (Inr (vname\<lparr>af := AF_INET, address := set_address (address vname) b len,
                                    type := GEN_IPADD\<rparr>))
                else if len = 32 then
                  Some (Inr (vname\<lparr>af := AF_INET6, address := set_address (address vname) b len,
                                    type := GEN_IPADD\<rparr>))
                else err)
         else if name_type = GEN_URI then
           (case bytes_opt of
              None \<Rightarrow> None
            | Some b \<Rightarrow>
                if \<not> x509_constraints_valid_domain_constraint b len then err
                else Some (Inr (vname\<lparr>name := Some (strdup b), type := GEN_URI\<rparr>)))
         else Some (Inr vname))"

text \<open>One of the two loops of \<open>x509_constraints_extract_constraints\<close> over subtrees.\<close>

fun subtrees_loop ::
  "GENERAL_SUBTREE list \<Rightarrow> x509_constraints_names
     \<Rightarrow> (verify_error + x509_constraints_names) option" where
  "subtrees_loop [] names = Some (Inr names)"
| "subtrees_loop (subtree # rest) names =
     (if minimum subtree \<noteq> None \<or> maximum subtree \<noteq> None
      then Some (Inl X509_V_ERR_SUBTREE_MINMAX)
      else
        (case x509_constraints_validate (base subtree) x509_constraints_name_new of
           None \<Rightarrow> None
         | Some (Inl e) \<Rightarrow> Some (Inl e)
         | Some (Inr vname) \<Rightarrow>
             if type vname = 0 then subtrees_loop rest names
             else subtrees_loop rest (x509_constraints_names_add names vname)))"

definition x509_constraints_extract_constraints ::
  "X509 \<Rightarrow> x509_constraints_names \<Rightarrow> x509_constraints_names
     \<Rightarrow> (verify_error + x509_constraints_names \<times> x509_constraints_names) option" where
  "x509_constraints_extract_constraints cert permitted excluded =
     (case nc cert of
        None \<Rightarrow> Some (Inr (permitted, excluded))
      | Some constraints \<Rightarrow>
          (case subtrees_loop (permittedSubtrees constraints) permitted of
             None \<Rightarrow> None
           | Some (Inl e) \<Rightarrow> Some (Inl e)
           | Some (Inr permitted) \<Rightarrow>
               (case subtrees_loop (excludedSubtrees constraints) excluded of
                  None \<Rightarrow> None
                | Some (Inl e) \<Rightarrow> Some (Inl e)
                | Some (Inr excluded) \<Rightarrow> Some (Inr (permitted, excluded)))))"

subsection \<open>Chain walk\<close>

text \<open>
  \<open>x509_constraints_chain\<close> returns 1, or returns 0 with \<open>*error\<close> and \<open>*depth\<close> set. The
  calls it makes to the extraction and checking functions are logged in order, each with
  the index of the certificate it is made for. The chain is \<open>None\<close> when the pointer is
  NULL, and so is an element that \<open>sk_X509_value\<close> returns as NULL. The two ceilings
  \<open>X509_VERIFY_MAX_CHAIN_NAMES\<close> and \<open>X509_VERIFY_MAX_CHAIN_CONSTRAINTS\<close> are set in the
  missing \<open>x509_internal.h\<close> and are parameters here.
\<close>

datatype chain_result = Returns_1 | Returns_0 verify_error nat

datatype chain_call = Extract_names nat | Extract_constraints nat | Check nat

fun chain_loop ::
  "nat \<Rightarrow> nat \<Rightarrow> nat \<Rightarrow> X509 option list \<Rightarrow> x509_constraints_names \<Rightarrow> nat \<Rightarrow> chain_call list
     \<Rightarrow> (chain_call list \<times> chain_result) option" where
  "chain_loop max_names max_constraints i [] names constraints_count calls =
     Some (calls, Returns_1)"
| "chain_loop max_names max_constraints i (cert_opt # rest) names constraints_count calls =
     (case cert_opt of
        None \<Rightarrow> Some (calls, Returns_0 X509_V_ERR_UNSPECIFIED i)
      | Some cert \<Rightarrow>
          let after_nc =
            (if nc cert \<noteq> None then
               (let calls = calls @ [Extract_constraints i]
                in case x509_constraints_extract_constraints cert [] [] of
                     None \<Rightarrow> None
                   | Some (Inl e) \<Rightarrow> Some (Inl (calls, e))
                   | Some (Inr (permitted, excluded)) \<Rightarrow>
                       let constraints_count =
                             constraints_count + length permitted + length excluded
                       in if constraints_count > max_constraints
                          then Some (Inl (calls, X509_V_ERR_OUT_OF_MEM))
                          else
                            (let calls = calls @ [Check i]
                             in case x509_constraints_check names permitted excluded of
                                  None \<Rightarrow> None
                                | Some (Inl e) \<Rightarrow> Some (Inl (calls, e))
                                | Some (Inr u) \<Rightarrow> Some (Inr (calls, constraints_count))))
             else Some (Inr (calls, constraints_count)))
          in case after_nc of
               None \<Rightarrow> None
             | Some (Inl (calls, e)) \<Rightarrow> Some (calls, Returns_0 e i)
             | Some (Inr (calls, constraints_count)) \<Rightarrow>
                 (let calls = calls @ [Extract_names i]
                  in case x509_constraints_extract_names names cert False of
                       None \<Rightarrow> None
                     | Some (Inl e) \<Rightarrow> Some (calls, Returns_0 e i)
                     | Some (Inr names) \<Rightarrow>
                         if length names > max_names
                         then Some (calls, Returns_0 X509_V_ERR_OUT_OF_MEM i)
                         else chain_loop max_names max_constraints (i + 1) rest names
                                constraints_count calls))"

definition x509_constraints_chain ::
  "nat \<Rightarrow> nat \<Rightarrow> X509 option list option \<Rightarrow> (chain_call list \<times> chain_result) option" where
  "x509_constraints_chain max_names max_constraints chain =
     (case chain of
        None \<Rightarrow> Some ([], Returns_0 X509_V_ERR_UNSPECIFIED 0)
      | Some certs \<Rightarrow>
          if length certs = 0 then Some ([], Returns_0 X509_V_ERR_UNSPECIFIED 0)
          else if length certs = 1 then Some ([], Returns_1)
          else
            (case hd certs of
               None \<Rightarrow> Some ([], Returns_0 X509_V_ERR_UNSPECIFIED 0)
             | Some cert \<Rightarrow>
                 (case x509_constraints_extract_names [] cert True of
                    None \<Rightarrow> None
                  | Some (Inl e) \<Rightarrow> Some ([Extract_names 0], Returns_0 e 0)
                  | Some (Inr names) \<Rightarrow>
                      chain_loop max_names max_constraints 1 (tl certs) names 0
                        [Extract_names 0])))"


subsection \<open>The check rule in the words of the specification\<close>

text \<open>
  A name matches a constraint when \<open>x509_constraints_match\<close> returns true. A name is
  excluded when it matches some excluded entry; it is permitted when it matches some
  permitted entry or no permitted entry has its type; it passes when it is permitted and
  not excluded.
\<close>

definition matches :: "x509_constraints_name \<Rightarrow> x509_constraints_name \<Rightarrow> bool" where
  "matches vname constraint \<longleftrightarrow> x509_constraints_match vname constraint = Some True"

definition name_excluded :: "x509_constraints_name \<Rightarrow> x509_constraints_names \<Rightarrow> bool" where
  "name_excluded vname excluded \<longleftrightarrow> (\<exists>e \<in> set excluded. matches vname e)"

definition name_permitted :: "x509_constraints_name \<Rightarrow> x509_constraints_names \<Rightarrow> bool" where
  "name_permitted vname permitted \<longleftrightarrow>
     ((\<exists>p \<in> set permitted. type p = type vname) \<longrightarrow> (\<exists>p \<in> set permitted. matches vname p))"

definition name_passes ::
  "x509_constraints_name \<Rightarrow> x509_constraints_names \<Rightarrow> x509_constraints_names \<Rightarrow> bool" where
  "name_passes vname permitted excluded \<longleftrightarrow>
     \<not> name_excluded vname excluded \<and> name_permitted vname permitted"

text \<open>Names as the extraction builds them, for the examples below.\<close>

definition dns_name :: "string \<Rightarrow> x509_constraints_name" where
  "dns_name s = x509_constraints_name_new\<lparr>name := Some s, type := GEN_DNS\<rparr>"

definition email_name :: "string \<Rightarrow> string \<Rightarrow> x509_constraints_name" where
  "email_name l d = x509_constraints_name_new\<lparr>local := Some l, name := Some d, type := GEN_EMAIL\<rparr>"

section \<open>Properties of the word arithmetic primitives\<close>

subsection \<open>Carry and borrow read off the top bit\<close>

lemma two_len: "(2::nat) ^ LENGTH('a::len) = 2 * 2 ^ (LENGTH('a) - Suc 0)"
  by (metis Suc_pred len_gt_0 power_Suc)

lemma unat_lt_two_top: "unat (x :: 'a::len word) < 2 * 2 ^ (LENGTH('a) - Suc 0)"
  by (metis two_len unsigned_less)

lemma div_top: "unat (x :: 'a::len word) div 2 ^ (LENGTH('a) - Suc 0)
    = (if 2 ^ (LENGTH('a) - Suc 0) \<le> unat x then 1 else 0)"
  using unat_lt_two_top [of x] by (simp add: div_nat_eqI)

lemma bit_top_unat:
  "bit (x :: 'a::len word) (LENGTH('a) - Suc 0) \<longleftrightarrow> 2 ^ (LENGTH('a) - Suc 0) \<le> unat x"
proof -
  have "bit x (LENGTH('a) - Suc 0) \<longleftrightarrow> bit (unat x) (LENGTH('a) - Suc 0)"
    by (simp add: bit_unsigned_iff)
  also have "\<dots> \<longleftrightarrow> odd (unat x div 2 ^ (LENGTH('a) - Suc 0))"
    by (simp only: bit_nat_def)
  also have "\<dots> \<longleftrightarrow> 2 ^ (LENGTH('a) - Suc 0) \<le> unat x"
    by (simp only: div_top) simp
  finally show ?thesis .
qed

lemma top_bit:
  "drop_bit (LENGTH('a) - Suc 0) (x :: 'a::len word) = of_bool (bit x (LENGTH('a) - Suc 0))"
proof (rule word_unat_eq_iff [THEN iffD2])
  show "unat (drop_bit (LENGTH('a) - Suc 0) x)
      = unat (of_bool (bit x (LENGTH('a) - Suc 0)) :: 'a word)"
    by (simp only: unat_drop_bit_eq drop_bit_nat_def div_top bit_top_unat) simp
qed

lemma carry_bit:
  fixes a b :: "'a::len word"
  shows "bit (((a OR b) AND NOT (a + b)) OR (a AND b)) (LENGTH('a) - Suc 0)
     \<longleftrightarrow> 2 ^ LENGTH('a) \<le> unat a + unat b"
proof -
  have "bit (((a OR b) AND NOT (a + b)) OR (a AND b)) (LENGTH('a) - Suc 0) \<longleftrightarrow>
      ((bit a (LENGTH('a) - Suc 0) \<or> bit b (LENGTH('a) - Suc 0))
        \<and> \<not> bit (a + b) (LENGTH('a) - Suc 0))
      \<or> (bit a (LENGTH('a) - Suc 0) \<and> bit b (LENGTH('a) - Suc 0))"
    by (simp add: bit_or_iff bit_and_iff bit_not_iff)
  also have "\<dots> \<longleftrightarrow> 2 ^ LENGTH('a) \<le> unat a + unat b"
    using unat_lt_two_top [of a] unat_lt_two_top [of b]
    by (simp only: bit_top_unat unat_plus_if' two_len) (simp, linarith)
  finally show ?thesis .
qed

lemma borrow_bit:
  fixes a b :: "'a::len word"
  shows "bit (((a - b) OR (b AND NOT a)) AND (b OR NOT a)) (LENGTH('a) - Suc 0)
     \<longleftrightarrow> unat a < unat b"
proof -
  have "bit (((a - b) OR (b AND NOT a)) AND (b OR NOT a)) (LENGTH('a) - Suc 0) \<longleftrightarrow>
      (bit (a - b) (LENGTH('a) - Suc 0)
        \<or> (bit b (LENGTH('a) - Suc 0) \<and> \<not> bit a (LENGTH('a) - Suc 0)))
      \<and> (bit b (LENGTH('a) - Suc 0) \<or> \<not> bit a (LENGTH('a) - Suc 0))"
    by (simp add: bit_or_iff bit_and_iff bit_not_iff)
  also have "\<dots> \<longleftrightarrow> unat a < unat b"
    using unat_lt_two_top [of a] unat_lt_two_top [of b]
    by (simp only: bit_top_unat unat_sub_if' two_len) (simp, linarith)
  finally show ?thesis .
qed

lemma bn_addw_eq:
  "bn_addw a b = (of_bool (2 ^ LENGTH('a) \<le> unat a + unat b), a + (b :: 'a::len word))"
  unfolding bn_addw_def BN_BITS2_def Let_def One_nat_def top_bit carry_bit ..

lemma bn_subw_eq:
  "bn_subw a b = (of_bool (unat a < unat b), a - (b :: 'a::len word))"
  unfolding bn_subw_def BN_BITS2_def Let_def One_nat_def top_bit borrow_bit ..

lemma bn_addw_llong_eq: "bn_addw_llong a b = bn_addw a (b :: 'a::len word)"
proof -
  have lt: "unat a + unat b < 2 * 2 ^ LENGTH('a)"
    using unsigned_less [of a, where 'a = nat] unsigned_less [of b, where 'a = nat] by linarith
  have "(2::nat) * 2 ^ LENGTH('a) \<le> 2 ^ LENGTH('a) * 2 ^ LENGTH('a)"
  proof -
    have "(2::nat) \<le> 2 ^ LENGTH('a)" by (simp add: two_len)
    then show ?thesis by simp
  qed
  then have lt2: "unat a + unat b < 2 ^ (2 * LENGTH('a))"
    using lt by (simp add: mult_2 power_add)
  have d: "(unat a + unat b) div 2 ^ LENGTH('a) = of_bool (2 ^ LENGTH('a) \<le> unat a + unat b)"
    using lt by (simp add: div_nat_eqI)
  have m: "(word_of_nat ((unat a + unat b) mod 2 ^ LENGTH('a)) :: 'a word) = a + b"
    by (simp add: of_nat_mod [symmetric] word_eq_iff_unsigned [where ?'a = nat] unat_word_ariths unat_of_nat)
  show ?thesis
    unfolding bn_addw_llong_def bn_addw_eq Let_def mod_less [OF lt2] d m by simp
qed

lemma bn_umul_hilo_eq:
  fixes a b :: "'a::len word"
  shows "bn_umul_hilo a b =
    (let k = LENGTH('a) div 2;
         ah = drop_bit k a; al = take_bit k a;
         bh = drop_bit k b; bl = take_bit k b;
         l0 = al * bl;
         p1 = push_bit k (ah * bl);
         p2 = push_bit k (bh * al)
     in (ah * bh + drop_bit k (ah * bl) + of_bool (2 ^ LENGTH('a) \<le> unat l0 + unat p1)
           + drop_bit k (bh * al) + of_bool (2 ^ LENGTH('a) \<le> unat (l0 + p1) + unat p2),
         l0 + p1 + p2))"
  unfolding bn_umul_hilo_def BN_BITS2_def BN_BITS4_def BN_MASK2l_def Let_def One_nat_def top_bit carry_bit
    take_bit_eq_mask [symmetric] ..

lemma word_of_nat_unat: "word_of_nat (unat w) = (w :: 'a::len word)"
  by simp

lemma halves_split:
  fixes A B M :: nat
  assumes M: "0 < M"
  defines "x1 \<equiv> (A div M) * (B mod M)" and "x2 \<equiv> (B div M) * (A mod M)"
  defines "l0 \<equiv> (A mod M) * (B mod M)"
  defines "p1 \<equiv> (x1 mod M) * M" and "p2 \<equiv> (x2 mod M) * M"
  defines "c1 \<equiv> (of_bool (M * M \<le> l0 + p1) :: nat)"
  defines "l1 \<equiv> (l0 + p1) mod (M * M)"
  defines "c2 \<equiv> (of_bool (M * M \<le> l1 + p2) :: nat)"
  shows "((A div M) * (B div M) + x1 div M + c1 + x2 div M + c2) * (M * M)
           + (l1 + p2) mod (M * M) = A * B"
proof -
  have l0: "l0 < M * M"
    unfolding l0_def using M by (simp add: mult_strict_mono)
  have p1: "p1 < M * M" and p2: "p2 < M * M"
    unfolding p1_def p2_def using M by simp_all
  have l1: "l1 < M * M"
    unfolding l1_def using M by simp
  have e1: "c1 * (M * M) + l1 = l0 + p1"
  proof (cases "M * M \<le> l0 + p1")
    case True
    then have "(l0 + p1) mod (M * M) = l0 + p1 - M * M"
      using l0 p1 by (simp add: mod_if)
    then show ?thesis using True by (simp add: c1_def l1_def)
  next
    case False
    then show ?thesis by (simp add: c1_def l1_def)
  qed
  have e2: "c2 * (M * M) + (l1 + p2) mod (M * M) = l1 + p2"
  proof (cases "M * M \<le> l1 + p2")
    case True
    then have "(l1 + p2) mod (M * M) = l1 + p2 - M * M"
      using l1 p2 by (simp add: mod_if)
    then show ?thesis using True by (simp add: c2_def)
  next
    case False
    then show ?thesis by (simp add: c2_def)
  qed
  have s1: "(x1 div M) * (M * M) + p1 = x1 * M"
    unfolding p1_def by (metis add_mult_distrib div_mult_mod_eq mult.assoc)
  have s2: "(x2 div M) * (M * M) + p2 = x2 * M"
    unfolding p2_def by (metis add_mult_distrib div_mult_mod_eq mult.assoc)
  have "((A div M) * (B div M) + x1 div M + c1 + x2 div M + c2) * (M * M)
           + (l1 + p2) mod (M * M)
      = (A div M) * (B div M) * (M * M) + ((x1 div M) * (M * M) + p1)
          + ((x2 div M) * (M * M) + p2) + l0"
    using e1 e2 by (simp add: add_mult_distrib)
  also have "\<dots> = (A div M) * (B div M) * (M * M) + x1 * M + x2 * M + l0"
    by (simp only: s1 s2)
  also have "\<dots> = A * B"
  proof -
    define q r q' r' where "q = A div M" and "r = A mod M" and "q' = B div M" and "r' = B mod M"
    have A: "A = q * M + r" and B: "B = q' * M + r'"
      by (simp_all add: q_def r_def q'_def r'_def)
    have "q * q' * (M * M) + q * r' * M + q' * r * M + r * r' = (q * M + r) * (q' * M + r')"
      by (simp add: algebra_simps)
    then have "q * q' * (M * M) + q * r' * M + q' * r * M + r * r' = A * B"
      by (simp only: A [symmetric] B [symmetric])
    then show ?thesis
      unfolding x1_def x2_def l0_def q_def r_def q'_def r'_def .
  qed
  finally show ?thesis .
qed

lemma bn_umul_hilo_exact:
  fixes a b :: "'a::len word"
  assumes ev: "even LENGTH('a)"
  shows "unat (fst (bn_umul_hilo a b)) * 2 ^ LENGTH('a) + unat (snd (bn_umul_hilo a b))
           = unat a * unat b"
proof -
  define k where "k = LENGTH('a) div 2"
  define M :: nat where "M = 2 ^ k"
  define A B where "A = unat a" and "B = unat b"
  have M: "0 < M" by (simp add: M_def)
  have "k + k = LENGTH('a)" using ev by (auto simp: k_def elim: evenE)
  then have MM: "M * M = 2 ^ LENGTH('a)"
    by (simp add: M_def power_add [symmetric])
  have A: "A < M * M" and B: "B < M * M"
    unfolding MM A_def B_def by (rule unsigned_less)+
  define ah al bh bl where "ah = drop_bit k a" and "al = take_bit k a"
    and "bh = drop_bit k b" and "bl = take_bit k b"
  have ah: "unat ah = A div M" and bh: "unat bh = B div M"
    by (simp_all add: ah_def bh_def A_def B_def M_def unat_drop_bit_eq drop_bit_nat_def)
  have al: "unat al = A mod M" and bl: "unat bl = B mod M"
    by (simp_all add: al_def bl_def A_def B_def M_def unsigned_take_bit_eq take_bit_nat_def)
  have Ah: "A div M < M" and Bh: "B div M < M"
    using A B by (simp_all add: less_mult_imp_div_less)
  have Al: "A mod M < M" and Bl: "B mod M < M"
    using M by simp_all
  have prod: "\<And>x y :: 'a word. unat x < M \<Longrightarrow> unat y < M \<Longrightarrow> unat (x * y) = unat x * unat y"
  proof -
    fix x y :: "'a word"
    assume "unat x < M" "unat y < M"
    then have "unat x * unat y < M * M"
      by (simp add: mult_strict_mono)
    then show "unat (x * y) = unat x * unat y"
      by (simp add: unat_word_ariths MM)
  qed
  have push: "\<And>x :: 'a word. unat (push_bit k x) = (unat x mod M) * M"
    by (simp add: unsigned_push_bit_eq take_bit_nat_def push_bit_nat_def MM [symmetric]
        M_def [symmetric] mult_mod_left)
  define x1 x2 l0 where "x1 = ah * bl" and "x2 = bh * al" and "l0 = al * bl"
  have x1: "unat x1 = (A div M) * (B mod M)" and x2: "unat x2 = (B div M) * (A mod M)"
    and l0: "unat l0 = (A mod M) * (B mod M)" and hh: "unat (ah * bh) = (A div M) * (B div M)"
    unfolding x1_def x2_def l0_def using Ah Bh Al Bl by (simp_all add: prod ah al bh bl)
  define p1 p2 where "p1 = push_bit k x1" and "p2 = push_bit k x2"
  have p1: "unat p1 = (unat x1 mod M) * M" and p2: "unat p2 = (unat x2 mod M) * M"
    by (simp_all add: p1_def p2_def push)
  define l1 where "l1 = l0 + p1"
  have l1: "unat l1 = (unat l0 + unat p1) mod (M * M)"
    by (simp add: l1_def unat_word_ariths MM)
  have l2: "unat (l1 + p2) = (unat l1 + unat p2) mod (M * M)"
    by (simp add: unat_word_ariths MM)
  define T where "T = unat (ah * bh) + unat (drop_bit k x1) + of_bool (M * M \<le> unat l0 + unat p1)
      + unat (drop_bit k x2) + of_bool (M * M \<le> unat l1 + unat p2)"
  have split: "T * (M * M) + unat (l1 + p2) = A * B"
    unfolding T_def l2 l1 p1 p2 hh l0 x1 x2 unat_drop_bit_eq drop_bit_nat_def
      M_def [symmetric]
    using halves_split [OF M, of A B] .
  have "A * B < (M * M) * (M * M)"
    using A B M by (intro mult_strict_mono) simp_all
  then have "T * (M * M) < (M * M) * (M * M)"
    using split by linarith
  then have T: "T < M * M"
    by simp
  have res: "bn_umul_hilo a b = (word_of_nat T, l1 + p2)"
    unfolding bn_umul_hilo_eq Let_def k_def [symmetric] ah_def [symmetric] al_def [symmetric]
      bh_def [symmetric] bl_def [symmetric] x1_def [symmetric] x2_def [symmetric]
      l0_def [symmetric] p1_def [symmetric] p2_def [symmetric] l1_def [symmetric]
    by (simp add: T_def MM)
  have "unat (word_of_nat T :: 'a word) = T"
    using T by (simp add: unat_of_nat MM)
  then show ?thesis
    using split by (simp add: res MM A_def B_def)
qed

lemma bn_umul_hilo_llong_exact:
  fixes a b :: "'a::len word"
  shows "unat (fst (bn_umul_hilo_llong a b)) * 2 ^ LENGTH('a) + unat (snd (bn_umul_hilo_llong a b))
           = unat a * unat b"
proof -
  define N :: nat where "N = 2 ^ LENGTH('a)"
  have N: "0 < N" by (simp add: N_def)
  have NN: "(2::nat) ^ (2 * LENGTH('a)) = N * N"
    by (simp add: N_def mult_2 power_add)
  have "unat a < N" "unat b < N"
    unfolding N_def by (rule unsigned_less)+
  then have lt: "unat a * unat b < N * N"
    using N by (intro mult_strict_mono) simp_all
  then have hi: "unat a * unat b div N < N"
    by (simp add: less_mult_imp_div_less)
  have "bn_umul_hilo_llong a b
      = (word_of_nat (unat a * unat b div N), word_of_nat (unat a * unat b mod N))"
    using lt by (simp add: bn_umul_hilo_llong_def Let_def NN N_def [symmetric])
  moreover have "unat (word_of_nat (unat a * unat b div N) :: 'a word) = unat a * unat b div N"
    using hi by (simp add: unat_of_nat N_def)
  moreover have "unat (word_of_nat (unat a * unat b mod N) :: 'a word) = unat a * unat b mod N"
    by (simp add: unat_of_nat N_def)
  ultimately show ?thesis
    by (simp add: N_def [symmetric])
qed

lemma nat_hilo_unique:
  fixes h l h' l' N :: nat
  assumes l: "l < N" and l': "l' < N" and eq: "h * N + l = h' * N + l'"
  shows "h = h' \<and> l = l'"
proof -
  have "(h * N + l) div N = h" "(h' * N + l') div N = h'"
    using l l' by simp_all
  then have h: "h = h'"
    using eq by simp
  then show ?thesis
    using eq by simp
qed

lemma hilo_unique:
  fixes h l h' l' :: "'a::len word"
  assumes "unat h * 2 ^ LENGTH('a) + unat l = unat h' * 2 ^ LENGTH('a) + unat l'"
  shows "h = h' \<and> l = l'"
proof -
  have "unat h = unat h' \<and> unat l = unat l'"
    by (rule nat_hilo_unique [OF _ _ assms]) (rule unsigned_less)+
  then show ?thesis
    by (simp only: word_unat_eq_iff)
qed

lemma max_product_bound:
  fixes A B C D N :: nat
  assumes "A < N" "B < N" "C < N" "D < N"
  shows "A * B + C + D < N * N"
proof -
  obtain n where N: "N = Suc n"
    using assms(1) by (cases N) simp_all
  have "A * B \<le> n * n"
    using assms(1,2) by (intro mult_le_mono) (simp_all add: N)
  moreover have "C \<le> n" "D \<le> n"
    using assms(3,4) by (simp_all add: N)
  ultimately show ?thesis
    by (simp add: N)
qed

lemma add_step:
  fixes r1 r0 c :: "'a::len word"
  assumes V: "unat r1 * 2 ^ LENGTH('a) + unat r0 = V"
    and lt: "V + unat c < 2 ^ LENGTH('a) * 2 ^ LENGTH('a)"
  shows "unat (r1 + fst (bn_addw r0 c)) * 2 ^ LENGTH('a) + unat (snd (bn_addw r0 c)) = V + unat c"
proof -
  define N :: nat where "N = 2 ^ LENGTH('a)"
  define cy :: nat where "cy = of_bool (N \<le> unat r0 + unat c)"
  have r0: "unat r0 < N" and c: "unat c < N"
    unfolding N_def by (rule unsigned_less)+
  have low: "cy * N + unat (r0 + c) = unat r0 + unat c"
    using r0 c by (simp add: cy_def unat_plus_if' N_def [symmetric])
  have tot: "(unat r1 + cy) * N + unat (r0 + c) = V + unat c"
    using low V by (simp add: add_mult_distrib N_def [symmetric])
  have "V + unat c < N * N"
    using lt by (simp only: N_def)
  then have "(unat r1 + cy) * N < N * N"
    using tot by linarith
  then have "unat r1 + cy < N"
    by (rule mult_less_cancel2 [THEN iffD1, THEN conjunct2])
  moreover have "unat (r1 + of_bool (N \<le> unat r0 + unat c)) = (unat r1 + cy) mod N"
    unfolding cy_def N_def unat_word_ariths by (cases "2 ^ LENGTH('a) \<le> unat r0 + unat c") simp_all
  ultimately have "unat (r1 + of_bool (N \<le> unat r0 + unat c)) = unat r1 + cy"
    by simp
  then show ?thesis
    using tot by (simp add: bn_addw_eq N_def [symmetric])
qed

lemma bn_mulw_addw_exact:
  fixes a b c :: "'a::len word"
  assumes ev: "even LENGTH('a)"
  shows "unat (fst (bn_mulw_addw a b c)) * 2 ^ LENGTH('a) + unat (snd (bn_mulw_addw a b c))
           = unat a * unat b + unat c"
proof -
  have "unat a * unat b + unat c + 0 < 2 ^ LENGTH('a) * 2 ^ LENGTH('a)"
    by (rule max_product_bound) (simp_all add: unsigned_less)
  then have lt: "unat a * unat b + unat c < 2 ^ LENGTH('a) * 2 ^ LENGTH('a)"
    by simp
  show ?thesis
    using add_step [OF bn_umul_hilo_exact [OF ev, of a b] lt]
    by (simp add: bn_mulw_addw_def Let_def split_beta)
qed

lemma bn_mulw_addw_addw_exact:
  fixes a b c d :: "'a::len word"
  assumes ev: "even LENGTH('a)"
  shows "unat (fst (bn_mulw_addw_addw a b c d)) * 2 ^ LENGTH('a)
           + unat (snd (bn_mulw_addw_addw a b c d))
           = unat a * unat b + unat c + unat d"
proof -
  have lt: "unat a * unat b + unat c + unat d < 2 ^ LENGTH('a) * 2 ^ LENGTH('a)"
    by (rule max_product_bound) (simp_all add: unsigned_less)
  show ?thesis
    using add_step [OF bn_mulw_addw_exact [OF ev, of a b c] lt]
    by (simp add: bn_mulw_addw_addw_def Let_def split_beta)
qed

lemma bn_addw_addw_eq:
  "bn_addw_addw a b c =
     (of_bool (2 ^ LENGTH('a) \<le> unat a + unat b) + of_bool (2 ^ LENGTH('a) \<le> unat (a + b) + unat c),
      a + b + (c :: 'a::len word))"
  by (simp add: bn_addw_addw_def bn_addw_eq)

lemma bn_subw_subw_eq:
  "bn_subw_subw a b c =
     (of_bool (unat a < unat b) + of_bool (unat (a - b) < unat c), a - b - (c :: 'a::len word))"
  by (simp add: bn_subw_subw_def bn_subw_eq)

lemma unat_two_of_bool_le: "unat (of_bool P + of_bool Q :: 'a::len word) \<le> 2"
proof -
  have "unat (of_bool P + of_bool Q :: 'a word) \<le> unat (of_bool P :: 'a word) + unat (of_bool Q :: 'a word)"
    by (simp add: unat_word_ariths)
  also have "\<dots> \<le> 2"
    by (cases P; cases Q) simp_all
  finally show ?thesis .
qed

subsection \<open>Claims about the word arithmetic primitives\<close>

text \<open>
  C4 (as amended). The carry returned by \<open>bn_addw_addw\<close> and the borrow returned by
  \<open>bn_subw_subw\<close> are always 0, 1 or 2: each is the sum of the two carries (borrows) of
  the two single steps, and both steps can carry (borrow).
\<close>

theorem bn_addw_addw_carry_le_2:
  "unat (fst (bn_addw_addw a b c)) \<le> 2 \<and> unat (fst (bn_subw_subw a b c)) \<le> 2"
  by (simp add: bn_addw_addw_eq bn_subw_subw_eq unat_two_of_bool_le)

text \<open>
  C4 as stated fails: with all three 64-bit inputs at their maximum the carry of
  \<open>bn_addw_addw\<close> is 2, and \<open>0 - max - max\<close> gives \<open>bn_subw_subw\<close> the borrow 2.
\<close>

theorem bn_addw_addw_carry_counterexample:
  "fst (bn_addw_addw 18446744073709551615 18446744073709551615
          (18446744073709551615 :: 64 word)) = 2
   \<and> fst (bn_subw_subw 0 18446744073709551615 (18446744073709551615 :: 64 word)) = 2"
  by (simp add: bn_addw_addw_eq bn_subw_subw_eq)

text \<open>
  C8. For a word of even width, \<open>bn_umul_hilo\<close> is commutative and returns \<open>(hi, lo)\<close>
  with \<open>hi * 2 ^ W + lo = a * b\<close>, in the half-word implementation and in the
  double-width (\<open>BN_LLONG\<close>) one; the maximal inputs are among the words quantified over.
\<close>

theorem bn_umul_hilo_commutative_exact:
  fixes a b :: "'a::len word"
  assumes "even LENGTH('a)"
  shows "bn_umul_hilo a b = bn_umul_hilo b a
    \<and> unat (fst (bn_umul_hilo a b)) * 2 ^ LENGTH('a) + unat (snd (bn_umul_hilo a b))
        = unat a * unat b
    \<and> bn_umul_hilo_llong a b = bn_umul_hilo_llong b a
    \<and> unat (fst (bn_umul_hilo_llong a b)) * 2 ^ LENGTH('a)
        + unat (snd (bn_umul_hilo_llong a b)) = unat a * unat b"
proof -
  have "unat (fst (bn_umul_hilo a b)) * 2 ^ LENGTH('a) + unat (snd (bn_umul_hilo a b))
      = unat (fst (bn_umul_hilo b a)) * 2 ^ LENGTH('a) + unat (snd (bn_umul_hilo b a))"
    by (simp only: bn_umul_hilo_exact [OF assms] mult.commute)
  then have "bn_umul_hilo a b = bn_umul_hilo b a"
    by (simp only: prod_eq_iff hilo_unique)
  moreover have "bn_umul_hilo_llong a b = bn_umul_hilo_llong b a"
    by (simp add: bn_umul_hilo_llong_def mult.commute)
  ultimately show ?thesis
    by (simp add: bn_umul_hilo_exact [OF assms] bn_umul_hilo_llong_exact)
qed

theorem bn_umul_hilo_commutative_exact_witness:
  "even LENGTH(64)
   \<and> bn_umul_hilo (18446744073709551615 :: 64 word) 18446744073709551615
       = bn_umul_hilo 18446744073709551615 18446744073709551615
   \<and> unat (fst (bn_umul_hilo (18446744073709551615 :: 64 word) 18446744073709551615)) * 2 ^ 64
       + unat (snd (bn_umul_hilo (18446744073709551615 :: 64 word) 18446744073709551615))
       = 18446744073709551615 * 18446744073709551615"
  using bn_umul_hilo_commutative_exact
    [where 'a = 64, of "18446744073709551615" "18446744073709551615"]
  by simp

text \<open>
  C10. For a word of even width, \<open>bn_mulw_addw_addw\<close> returns \<open>(r1, r0)\<close> with
  \<open>r1 * 2 ^ W + r0 = a * b + c + d\<close>: nothing is lost to overflow.
\<close>

theorem bn_mulw_addw_addw_no_overflow:
  fixes a b c d :: "'a::len word"
  assumes "even LENGTH('a)"
  shows "unat (fst (bn_mulw_addw_addw a b c d)) * 2 ^ LENGTH('a)
           + unat (snd (bn_mulw_addw_addw a b c d))
           = unat a * unat b + unat c + unat d"
  by (rule bn_mulw_addw_addw_exact [OF assms])

theorem bn_mulw_addw_addw_no_overflow_witness:
  "even LENGTH(64)
   \<and> unat (fst (bn_mulw_addw_addw (18446744073709551615 :: 64 word) 18446744073709551615
                  18446744073709551615 18446744073709551615)) * 2 ^ 64
       + unat (snd (bn_mulw_addw_addw (18446744073709551615 :: 64 word) 18446744073709551615
                      18446744073709551615 18446744073709551615))
       = 18446744073709551615 * 18446744073709551615 + 18446744073709551615
           + 18446744073709551615"
  using bn_mulw_addw_addw_no_overflow
    [where 'a = 64, of "18446744073709551615" "18446744073709551615"
      "18446744073709551615" "18446744073709551615"]
  by simp


lemma bn_umul_hilo_llong_eq:
  fixes a b :: "'a::len word"
  assumes "even LENGTH('a)"
  shows "bn_umul_hilo_llong a b = bn_umul_hilo a b"
proof -
  have "unat (fst (bn_umul_hilo_llong a b)) * 2 ^ LENGTH('a) + unat (snd (bn_umul_hilo_llong a b))
      = unat (fst (bn_umul_hilo a b)) * 2 ^ LENGTH('a) + unat (snd (bn_umul_hilo a b))"
    by (simp only: bn_umul_hilo_exact [OF assms] bn_umul_hilo_llong_exact)
  then show ?thesis
    by (simp only: prod_eq_iff hilo_unique)
qed

section \<open>Properties of the name constraint functions\<close>

subsection \<open>String comparison\<close>

lemma of_char_eq_0_iff: "(of_char c :: nat) = 0 \<longleftrightarrow> c = NUL"
proof -
  have "(of_char c :: nat) = of_char NUL \<longleftrightarrow> c = NUL"
    by (simp only: of_char_eq_iff)
  then show ?thesis by (simp add: NUL_def)
qed

lemma int_of_char_diff_0: "int (of_char c1) - int (of_char c2) = 0 \<longleftrightarrow> c1 = c2"
  by simp

lemma byte_at_Cons_0: "byte_at (c # s) 0 = c"
  by (simp add: byte_at_def)

lemma byte_at_Nil: "byte_at [] i = NUL"
  by (simp add: byte_at_def)

lemma byte_at_0_NUL_iff: "byte_at s 0 = NUL \<longleftrightarrow> cstr s = []"
  by (cases s) (simp_all add: byte_at_def cstr_def)

lemma cstr_Cons: "cstr (c # s) = (if c = NUL then [] else c # cstr s)"
  by (simp add: cstr_def)

lemma strcmp_eq_0_iff: "strcmp s1 s2 = 0 \<longleftrightarrow> cstr s1 = cstr s2"
proof (induction s1 arbitrary: s2)
  case Nil
  show ?case
    using byte_at_0_NUL_iff [of s2] of_char_eq_0_iff [of "byte_at s2 0"]
    by (auto simp: cstr_def)
next
  case (Cons c1 s1)
  show ?case
  proof (cases s2)
    case Nil
    then show ?thesis
      by (simp add: byte_at_Nil cstr_Cons) (simp add: cstr_def)
  next
    case (Cons c2 s2')
    then show ?thesis
      using Cons.IH [of s2'] by (simp add: byte_at_Cons_0 cstr_Cons Let_def)
  qed
qed

lemma tolower_NUL_iff: "tolower c = NUL \<longleftrightarrow> c = NUL"
proof
  assume "tolower c = NUL"
  show "c = NUL"
  proof (rule ccontr)
    assume n: "c \<noteq> NUL"
    then have "tolower c \<noteq> c"
      using \<open>tolower c = NUL\<close> by simp
    then have r: "65 \<le> (of_char c :: nat) \<and> (of_char c :: nat) \<le> 90"
      and t: "tolower c = char_of ((of_char c :: nat) + 32)"
      by (auto simp: tolower_def Let_def split: if_splits)
    have "(of_char (tolower c) :: nat) = (of_char c + 32) mod 256"
      by (simp only: t of_char_of)
    also have "\<dots> = of_char c + 32"
      using r by simp
    finally have "(of_char (tolower c) :: nat) \<noteq> 0"
      by simp
    then show False
      using \<open>tolower c = NUL\<close> by (simp add: NUL_def)
  qed
next
  assume "c = NUL"
  then show "tolower c = NUL"
    by (simp add: tolower_def NUL_def)
qed

lemma strncasecmp_eq_0_iff:
  "n \<le> length s1 \<Longrightarrow> n \<le> length s2 \<Longrightarrow> NUL \<notin> set (take n s1)
   \<Longrightarrow> strncasecmp s1 s2 n = 0 \<longleftrightarrow> map tolower (take n s1) = map tolower (take n s2)"
proof (induction n arbitrary: s1 s2)
  case 0
  show ?case by simp
next
  case (Suc n)
  from Suc.prems obtain c1 r1 c2 r2 where s: "s1 = c1 # r1" "s2 = c2 # r2"
    by (cases s1; cases s2) simp_all
  with Suc.prems have "n \<le> length r1" "n \<le> length r2" "NUL \<notin> set (take n r1)" "c1 \<noteq> NUL"
    by auto
  with Suc.IH [of r1 r2] show ?case
    by (simp add: s byte_at_Cons_0 Let_def)
qed

lemma suffix_iff_drop:
  "suffix xs ys \<longleftrightarrow> length xs \<le> length ys \<and> drop (length ys - length xs) ys = xs"
proof
  assume "suffix xs ys"
  then obtain zs where "ys = zs @ xs"
    by (auto simp: suffix_def)
  then show "length xs \<le> length ys \<and> drop (length ys - length xs) ys = xs"
    by simp
next
  assume "length xs \<le> length ys \<and> drop (length ys - length xs) ys = xs"
  then have "ys = take (length ys - length xs) ys @ xs"
    by (metis append_take_drop_id)
  then show "suffix xs ys"
    by (metis suffixI)
qed

lemma take_strlen: "take (strlen s) s = cstr s"
  by (simp add: strlen_def cstr_def takeWhile_eq_take [symmetric])

lemma NUL_notin_cstr: "NUL \<notin> set (cstr s)"
  by (auto simp: cstr_def dest: set_takeWhileD)

lemma strlen_le: "strlen s \<le> length s"
  by (simp add: strlen_def cstr_def length_takeWhile_le)

lemma x509_constraints_sandns_iff:
  "x509_constraints_sandns n (strlen n) c (strlen c)
     \<longleftrightarrow> cstr c = [] \<or> suffix (map tolower (cstr c)) (map tolower (cstr n))"
proof (cases "strlen c = 0")
  case True
  then show ?thesis
    by (simp add: x509_constraints_sandns_def strlen_def)
next
  case False
  show ?thesis
  proof (cases "strlen n < strlen c")
    case True
    then show ?thesis
      using False by (auto simp: x509_constraints_sandns_def suffix_iff_drop strlen_def)
  next
    case ge: False
    define k where "k = strlen n - strlen c"
    have tk: "take (strlen c) (drop k n) = drop k (cstr n)"
      using ge by (simp add: k_def take_strlen [symmetric] drop_take)
    have "strlen c \<le> length (drop k n)"
      using ge strlen_le [of n] by (simp add: k_def)
    moreover have "strlen c \<le> length c"
      by (rule strlen_le)
    moreover have "NUL \<notin> set (take (strlen c) (drop k n))"
      unfolding tk using NUL_notin_cstr [of n] by (auto dest: in_set_dropD)
    ultimately have "strncasecmp (drop k n) c (strlen c) = 0
        \<longleftrightarrow> map tolower (take (strlen c) (drop k n)) = map tolower (take (strlen c) c)"
      by (rule strncasecmp_eq_0_iff)
    also have "\<dots> \<longleftrightarrow> drop k (map tolower (cstr n)) = map tolower (cstr c)"
      by (simp add: tk take_strlen drop_map)
    also have "\<dots> \<longleftrightarrow> suffix (map tolower (cstr c)) (map tolower (cstr n))"
      using ge by (simp add: suffix_iff_drop k_def strlen_def)
    finally show ?thesis
      using False ge by (simp add: x509_constraints_sandns_def k_def) (simp add: strlen_def)
  qed
qed

subsection \<open>The loops of the check\<close>

lemma excluded_loop_defined:
  "\<forall>e \<in> set es. x509_constraints_match vname e \<noteq> None
   \<Longrightarrow> excluded_loop vname es = Some (name_excluded vname es)"
proof (induction es)
  case Nil
  show ?case by (simp add: name_excluded_def)
next
  case (Cons e es)
  then obtain b where b: "x509_constraints_match vname e = Some b"
    by auto
  with Cons show ?case
    by (cases b) (simp_all add: name_excluded_def matches_def)
qed

lemma permitted_loop_defined:
  "\<forall>p \<in> set ps. x509_constraints_match vname p \<noteq> None
   \<Longrightarrow> \<exists>seen matched. permitted_loop vname ps s m = Some (seen, matched)
        \<and> (matched = 0 \<longleftrightarrow> m = 0 \<and> \<not> (\<exists>p \<in> set ps. matches vname p))
        \<and> (\<not> (\<exists>p \<in> set ps. matches vname p)
             \<longrightarrow> (seen \<noteq> 0 \<longleftrightarrow> s \<noteq> 0 \<or> (\<exists>p \<in> set ps. type p = type vname)))"
proof (induction ps arbitrary: s m)
  case Nil
  show ?case by simp
next
  case (Cons p ps)
  then obtain b where b: "x509_constraints_match vname p = Some b"
    by auto
  show ?case
  proof (cases b)
    case True
    then show ?thesis
      using b by (simp add: matches_def Let_def)
  next
    case False
    from Cons.prems have "\<forall>p \<in> set ps. x509_constraints_match vname p \<noteq> None"
      by simp
    from Cons.IH [OF this, of "if type p = type vname then s + 1 else s" m]
    show ?thesis
      using b False by (auto simp: matches_def Let_def split: if_splits)
  qed
qed

lemma check_step:
  assumes "\<forall>c \<in> set permitted \<union> set excluded. x509_constraints_match vname c \<noteq> None"
  shows "x509_constraints_check (vname # names) permitted excluded =
    (if name_excluded vname excluded then Some (Inl X509_V_ERR_EXCLUDED_VIOLATION)
     else if \<not> name_permitted vname permitted then Some (Inl X509_V_ERR_PERMITTED_VIOLATION)
     else x509_constraints_check names permitted excluded)"
proof -
  have ex: "excluded_loop vname excluded = Some (name_excluded vname excluded)"
    using assms by (intro excluded_loop_defined) simp
  have "\<forall>p \<in> set permitted. x509_constraints_match vname p \<noteq> None"
    using assms by simp
  from permitted_loop_defined [OF this, of 0 0]
  obtain seen matched where pl: "permitted_loop vname permitted 0 0 = Some (seen, matched)"
    and m: "matched = 0 \<longleftrightarrow> \<not> (\<exists>p \<in> set permitted. matches vname p)"
    and s: "\<not> (\<exists>p \<in> set permitted. matches vname p)
             \<longrightarrow> (seen \<noteq> 0 \<longleftrightarrow> (\<exists>p \<in> set permitted. type p = type vname))"
    by auto
  have "seen \<noteq> 0 \<and> matched = 0 \<longleftrightarrow> \<not> name_permitted vname permitted"
    using m s by (auto simp: name_permitted_def)
  then show ?thesis
    using ex pl by (cases "name_excluded vname excluded") auto
qed

lemma check_eq_find:
  assumes "\<forall>vname \<in> set names. \<forall>c \<in> set permitted \<union> set excluded.
             x509_constraints_match vname c \<noteq> None"
  shows "x509_constraints_check names permitted excluded =
      (case find (\<lambda>vname. \<not> name_passes vname permitted excluded) names of
         None \<Rightarrow> Some (Inr ())
       | Some vname \<Rightarrow>
           Some (Inl (if name_excluded vname excluded then X509_V_ERR_EXCLUDED_VIOLATION
                      else X509_V_ERR_PERMITTED_VIOLATION)))"
  using assms
proof (induction names)
  case Nil
  show ?case by simp
next
  case (Cons vname names)
  then have d: "\<forall>c \<in> set permitted \<union> set excluded. x509_constraints_match vname c \<noteq> None"
    by simp
  from Cons have IH: "x509_constraints_check names permitted excluded =
      (case find (\<lambda>vname. \<not> name_passes vname permitted excluded) names of
         None \<Rightarrow> Some (Inr ())
       | Some vname \<Rightarrow>
           Some (Inl (if name_excluded vname excluded then X509_V_ERR_EXCLUDED_VIOLATION
                      else X509_V_ERR_PERMITTED_VIOLATION)))"
    by simp
  show ?case
    unfolding check_step [OF d]
    using IH by (auto simp: name_passes_def)
qed

subsection \<open>Claims about name constraints\<close>

text \<open>
  C1 (as amended). Where no match reads through a NULL pointer, \<open>x509_constraints_check\<close>
  takes the names in order and fails at the first name that does not pass: with the
  excluded-violation error if that name matches an excluded entry, otherwise with the
  permitted-violation error (its type has a permitted entry, but it matches none); a name
  whose type has no permitted entry is allowed; the check succeeds exactly when every
  name passes.
\<close>

theorem check_first_failing_name:
  assumes "\<forall>vname \<in> set names. \<forall>c \<in> set permitted \<union> set excluded.
             x509_constraints_match vname c \<noteq> None"
  shows "x509_constraints_check names permitted excluded =
      (case find (\<lambda>vname. \<not> name_passes vname permitted excluded) names of
         None \<Rightarrow> Some (Inr ())
       | Some vname \<Rightarrow>
           Some (Inl (if name_excluded vname excluded then X509_V_ERR_EXCLUDED_VIOLATION
                      else X509_V_ERR_PERMITTED_VIOLATION)))
    \<and> (x509_constraints_check names permitted excluded = Some (Inr ())
         \<longleftrightarrow> (\<forall>vname \<in> set names. name_passes vname permitted excluded))"
proof -
  note eq = check_eq_find [OF assms]
  have "x509_constraints_check names permitted excluded = Some (Inr ())
      \<longleftrightarrow> find (\<lambda>vname. \<not> name_passes vname permitted excluded) names = None"
    unfolding eq by (simp split: option.splits)
  also have "\<dots> \<longleftrightarrow> (\<forall>vname \<in> set names. name_passes vname permitted excluded)"
    by (auto simp: find_None_iff)
  finally show ?thesis
    using eq by simp
qed

theorem check_first_failing_name_witness:
  "x509_constraints_match (dns_name ''www.example.com'') (dns_name ''.example.com'') = Some True
   \<and> x509_constraints_match (dns_name ''www.example.com'') (dns_name ''.example.org'')
       = Some False
   \<and> x509_constraints_match (dns_name ''mail.example.org'') (dns_name ''.example.com'')
       = Some False
   \<and> x509_constraints_match (dns_name ''mail.example.org'') (dns_name ''.example.org'')
       = Some True
   \<and> x509_constraints_check [dns_name ''www.example.com'', dns_name ''mail.example.org'']
        [dns_name ''.example.com''] [dns_name ''.example.org'']
      = Some (Inl X509_V_ERR_EXCLUDED_VIOLATION)"
proof -
  have m: "x509_constraints_match (dns_name ''www.example.com'') (dns_name ''.example.com'')
      = Some True"
    "x509_constraints_match (dns_name ''www.example.com'') (dns_name ''.example.org'')
      = Some False"
    "x509_constraints_match (dns_name ''mail.example.org'') (dns_name ''.example.com'')
      = Some False"
    "x509_constraints_match (dns_name ''mail.example.org'') (dns_name ''.example.org'')
      = Some True"
    by code_simp+
  have h: "\<forall>vname \<in> set [dns_name ''www.example.com'', dns_name ''mail.example.org''].
      \<forall>c \<in> set [dns_name ''.example.com''] \<union> set [dns_name ''.example.org''].
        x509_constraints_match vname c \<noteq> None"
    using m by auto
  have "find (\<lambda>vname. \<not> name_passes vname [dns_name ''.example.com''] [dns_name ''.example.org''])
      [dns_name ''www.example.com'', dns_name ''mail.example.org'']
      = Some (dns_name ''mail.example.org'')"
    using m by (simp add: name_passes_def name_excluded_def name_permitted_def matches_def)
  moreover have "name_excluded (dns_name ''mail.example.org'') [dns_name ''.example.org'']"
    using m by (simp add: name_excluded_def matches_def)
  ultimately show ?thesis
    using m check_first_failing_name [OF h] by simp
qed

text \<open>
  C1 as stated fails: the name \<open>b.com\<close> matches the excluded entry \<open>b.com\<close>, yet the check
  of the names \<open>a.org\<close>, \<open>b.com\<close> against the permitted entry \<open>.net\<close> fails with the
  permitted-violation error, raised for \<open>a.org\<close> before \<open>b.com\<close> is looked at.
\<close>

theorem check_excluded_error_counterexample:
  "x509_constraints_match (dns_name ''b.com'') (dns_name ''b.com'') = Some True
   \<and> x509_constraints_check [dns_name ''a.org'', dns_name ''b.com''] [dns_name ''.net'']
        [dns_name ''b.com'']
      = Some (Inl X509_V_ERR_PERMITTED_VIOLATION)"
  by code_simp

text \<open>
  C2. For a DNS name and a DNS constraint, \<open>x509_constraints_match\<close> returns true exactly
  when the constraint string is empty or is a suffix of the name's string, letter case
  aside; nothing asks the suffix to start at a label boundary.
\<close>

theorem match_dns_suffix:
  assumes "type vname = GEN_DNS" and "type constraint = GEN_DNS"
    and "name vname = Some n" and "name constraint = Some c"
  shows "x509_constraints_match vname constraint
     = Some (cstr c = [] \<or> suffix (map tolower (cstr c)) (map tolower (cstr n)))"
  using assms by (simp add: x509_constraints_match_def x509_constraints_sandns_iff)

theorem match_dns_suffix_witness:
  "type (dns_name ''wwwExample.com'') = GEN_DNS \<and> type (dns_name ''example.COM'') = GEN_DNS
   \<and> name (dns_name ''wwwExample.com'') = Some ''wwwExample.com''
   \<and> name (dns_name ''example.COM'') = Some ''example.COM''
   \<and> x509_constraints_match (dns_name ''wwwExample.com'') (dns_name ''example.COM'')
       = Some (cstr ''example.COM'' = []
               \<or> suffix (map tolower (cstr ''example.COM'')) (map tolower (cstr ''wwwExample.com'')))
   \<and> x509_constraints_match (dns_name ''wwwExample.com'') (dns_name ''example.COM'') = Some True"
proof -
  have h: "type (dns_name ''wwwExample.com'') = GEN_DNS" "type (dns_name ''example.COM'') = GEN_DNS"
    "name (dns_name ''wwwExample.com'') = Some ''wwwExample.com''"
    "name (dns_name ''example.COM'') = Some ''example.COM''"
    by (simp_all add: dns_name_def)
  have t: "x509_constraints_match (dns_name ''wwwExample.com'') (dns_name ''example.COM'') = Some True"
    by code_simp
  show ?thesis
    using h t match_dns_suffix [OF h] by simp
qed

text \<open>
  C3 (as amended). For an email name and an email constraint that carries a local part,
  \<open>x509_constraints_match\<close> returns true exactly when the local parts are equal byte for
  byte and the domain parts are equal byte for byte: both comparisons are \<open>strcmp\<close>.
\<close>

theorem match_email_local_exact:
  assumes "type vname = GEN_EMAIL" and "type constraint = GEN_EMAIL"
    and "local constraint = Some cl" and "local vname = Some nl"
    and "name vname = Some n" and "name constraint = Some c"
  shows "x509_constraints_match vname constraint
     = Some (cstr nl = cstr cl \<and> cstr n = cstr c)"
  using assms
  by (simp add: x509_constraints_match_def strcmp_eq_0_iff GEN_EMAIL_def GEN_DNS_def GEN_URI_def
      GEN_IPADD_def)

theorem match_email_local_exact_witness:
  "type (email_name ''user'' ''example.com'') = GEN_EMAIL
   \<and> local (email_name ''user'' ''example.com'') = Some ''user''
   \<and> name (email_name ''user'' ''example.com'') = Some ''example.com''
   \<and> x509_constraints_match (email_name ''user'' ''example.com'')
        (email_name ''user'' ''example.com'')
       = Some (cstr ''user'' = cstr ''user'' \<and> cstr ''example.com'' = cstr ''example.com'')"
proof -
  have h: "type (email_name ''user'' ''example.com'') = GEN_EMAIL"
    "local (email_name ''user'' ''example.com'') = Some ''user''"
    "name (email_name ''user'' ''example.com'') = Some ''example.com''"
    by (simp_all add: email_name_def)
  show ?thesis
    using h match_email_local_exact [OF h(1) h(1) h(2) h(2) h(3) h(3)] by simp
qed

text \<open>
  C3 as stated fails: the local parts are equal and the domain parts \<open>Example.com\<close> and
  \<open>example.com\<close> are equal up to letter case, but the match returns false.
\<close>

theorem match_email_domain_case_counterexample:
  "x509_constraints_match (email_name ''user'' ''Example.com'')
     (email_name ''user'' ''example.com'') = Some False
   \<and> cstr ''user'' = cstr ''user''
   \<and> map tolower (cstr ''Example.com'') = map tolower (cstr ''example.com'')"
  by code_simp

text \<open>
  C5 (the code at the failing input). The URI \<open>https://1.2.3.4:443/path\<close> yields the host
  \<open>1.2.3.4\<close>, although that string does not pass hostname validation (it is an IPv4
  literal) and although the same host at the end of a URI is refused: the validation
  hands \<open>inet_pton\<close> the host together with the rest of the URI.
\<close>

theorem uri_host_ip_literal:
  "x509_constraints_uri_host ''https://1.2.3.4:443/path'' 24 = Some ''1.2.3.4''
   \<and> \<not> x509_constraints_valid_host ''1.2.3.4'' 7
   \<and> x509_constraints_uri_host ''https://1.2.3.4'' 15 = None"
  by code_simp

text \<open>The example of the specification, a second \<open>@\<close> and a URI without \<open>//\<close>.\<close>

lemma uri_host_examples:
  "x509_constraints_uri_host ''https://user@host.example.com:443/path'' 38
     = Some ''host.example.com''
   \<and> x509_constraints_uri_host ''https://user@x@host.example.com/'' 32 = None
   \<and> x509_constraints_uri_host ''https:/host.example.com'' 23 = None"
  by code_simp

text \<open>
  The scan for the host ends at the first \<open>:\<close>, so a \<open>:\<close> inside the user information
  ends it before the \<open>@\<close> is met.
\<close>

lemma uri_host_userinfo_colon:
  "x509_constraints_uri_host ''https://user:pw@host.example.com/'' 33 = Some ''user''"
  by code_simp

text \<open>
  C6. \<open>x509_constraints_chain\<close> returns an error (unspecified, at depth 0) for a missing
  chain and for a chain of length 0, and returns success for a chain of length 1,
  whatever its certificate; in all three cases it calls neither the name extraction nor
  the constraint extraction nor the check.
\<close>

theorem chain_short:
  "x509_constraints_chain max_names max_constraints None
     = Some ([], Returns_0 X509_V_ERR_UNSPECIFIED 0)
   \<and> x509_constraints_chain max_names max_constraints (Some [])
     = Some ([], Returns_0 X509_V_ERR_UNSPECIFIED 0)
   \<and> x509_constraints_chain max_names max_constraints (Some [cert]) = Some ([], Returns_1)"
  by (simp add: x509_constraints_chain_def)

text \<open>
  The mailbox parser returns 0 or 1; a candidate without \<open>@\<close> is refused, and a call
  that returns 1 has set the local part, the domain part and the type together.
\<close>

lemma parse_mailbox_loop_no_at:
  "CHR ''@'' \<notin> set rest \<Longrightarrow>
   parse_mailbox_loop first working accept quoted None candidate_domain rest = None
   \<or> parse_mailbox_loop first working accept quoted None candidate_domain rest
       = Some (None, candidate_domain)"
proof (induction rest arbitrary: first working accept quoted)
  case Nil
  show ?case by simp
next
  case (Cons c rest)
  then have IH: "\<And>first working accept quoted.
     parse_mailbox_loop first working accept quoted None candidate_domain rest = None
     \<or> parse_mailbox_loop first working accept quoted None candidate_domain rest
         = Some (None, candidate_domain)"
    and c: "c \<noteq> CHR ''@''"
    by auto
  show ?case
    using c IH by (simp add: Let_def)
qed

lemma parse_mailbox_no_at:
  assumes "CHR ''@'' \<notin> set (bytes cand len)"
  shows "fst (x509_constraints_parse_mailbox (Some cand) len vname) = 0"
  using parse_mailbox_loop_no_at [OF assms, of True "[]" False False None]
  by (auto simp: x509_constraints_parse_mailbox_def split: option.splits prod.splits)

lemma parse_mailbox_result:
  "fst (x509_constraints_parse_mailbox candidate len vname) = 0
   \<or> fst (x509_constraints_parse_mailbox candidate len vname) = 1
      \<and> (\<exists>l d. snd (x509_constraints_parse_mailbox candidate len vname)
                  = vname\<lparr>local := Some l, name := Some d, type := GEN_EMAIL\<rparr>)"
  unfolding x509_constraints_parse_mailbox_def
  by (auto split: option.splits if_splits prod.splits)

text \<open>
  C7. Whenever \<open>x509_constraints_parse_mailbox\<close> returns 0, the target record is as it
  was before the call.
\<close>

theorem parse_mailbox_failure_leaves_name:
  "fst (x509_constraints_parse_mailbox candidate len vname) = 0
   \<Longrightarrow> snd (x509_constraints_parse_mailbox candidate len vname) = vname"
  unfolding x509_constraints_parse_mailbox_def
  by (auto split: option.splits if_splits prod.splits)

theorem parse_mailbox_failure_leaves_name_witness:
  "fst (x509_constraints_parse_mailbox (Some ''user@'') 5 x509_constraints_name_new) = 0
   \<and> snd (x509_constraints_parse_mailbox (Some ''user@'') 5 x509_constraints_name_new)
       = x509_constraints_name_new"
proof -
  have h: "fst (x509_constraints_parse_mailbox (Some ''user@'') 5 x509_constraints_name_new) = 0"
    by code_simp
  show ?thesis
    using h parse_mailbox_failure_leaves_name [OF h] by simp
qed

text \<open>
  C9. Every byte span that \<open>x509_constraints_valid_host\<close> accepts,
  \<open>x509_constraints_valid_domain\<close> accepts too.
\<close>

theorem valid_host_imp_valid_domain:
  "x509_constraints_valid_host s len \<Longrightarrow> x509_constraints_valid_domain s len"
  by (simp add: x509_constraints_valid_host_def x509_constraints_valid_domain_def
      split: if_splits)

theorem valid_host_imp_valid_domain_witness:
  "x509_constraints_valid_host ''host.example.com'' 16
   \<and> x509_constraints_valid_domain ''host.example.com'' 16"
proof -
  have h: "x509_constraints_valid_host ''host.example.com'' 16"
    by code_simp
  show ?thesis
    using h valid_host_imp_valid_domain [OF h] by simp
qed

end
